theory Spec2Isabelle
  imports Complex_Main
begin

section \<open>The serial command console of the fox transmitter\<close>

text \<open>
  The development embeds the command-line interpreter of \<^verbatim>\<open>cmdArduino.cpp\<close> and the
  command handlers of \<^verbatim>\<open>commands.cpp\<close> that the verified properties speak about.
  Bytes are \<^typ>\<open>char\<close>; a C string is the list of its bytes before the terminating
  zero byte; a pointer into a fixed array is an index into a list of the array's length.
  Behaviour the C standard leaves undefined (a write past the end of an array, a null
  pointer handed to \<^verbatim>\<open>strcmp\<close>) is a value of type \<open>error\<close>.
\<close>

subsection \<open>Errors, bytes and the serial ports\<close>

datatype error =
    NullPointer        \<comment> \<open>a null pointer is dereferenced\<close>
  | OutOfBounds int    \<comment> \<open>an array is accessed at an index it does not have\<close>

abbreviation NUL :: char where "NUL \<equiv> CHR 0x00"
abbreviation CR :: char where "CR \<equiv> CHR 0x0D"
abbreviation LF :: char where "LF \<equiv> CHR 0x0A"
abbreviation BS :: char where "BS \<equiv> CHR 0x08"
abbreviation DEL :: char where "DEL \<equiv> CHR 0x7F"
abbreviation SPC :: char where "SPC \<equiv> CHR 0x20"

text \<open>
  The interpreter writes through its member \<^verbatim>\<open>_ser\<close>, the command handlers through
  the global \<^verbatim>\<open>Serial\<close>. Every transmitted byte is logged with the port it was
  written to, in the order of the writes.
\<close>

datatype port = Cmd_ser | Serial

text \<open>
  \<^verbatim>\<open>double\<close> values: the finite ones by their exact rational value, and the three
  special values. The comparison \<^verbatim>\<open><=\<close> is false whenever an operand is not a number.
\<close>

datatype double = Finite rat | PosInf | NegInf | NaN

fun dle :: "double \<Rightarrow> double \<Rightarrow> bool" where
  "dle NaN _ = False"
| "dle _ NaN = False"
| "dle NegInf _ = True"
| "dle _ PosInf = True"
| "dle (Finite a) (Finite b) = (a \<le> b)"
| "dle _ _ = False"

text \<open>
  Modelled from the spec: the signal generator \<^verbatim>\<open>synth\<close> (\<^verbatim>\<open>synth.h\<close> is not part of
  the sources). It is a collaborator with paired getters and setters and a commit
  operation \<^verbatim>\<open>apply_settings\<close>. The model keeps the value each setter stored and the
  sequence of the calls that change or commit the settings.
\<close>

datatype synth_call =
    Set_dither_amplitude double
  | Set_amplitude double
  | Set_frequency double
  | Set_mode int
  | Set_max_words int
  | Apply_settings
  | Restore_out_pins

record synth =
  dither_amplitude :: double
  amplitude :: double
  frequency :: double
  synth_mode :: int
  synth_max_words :: int
  calls :: "synth_call list"

definition get_amplitude :: "synth \<Rightarrow> double" where
  "get_amplitude sy = amplitude sy"

definition set_amplitude :: "double \<Rightarrow> synth \<Rightarrow> synth" where
  "set_amplitude v sy = sy\<lparr>amplitude := v, calls := calls sy @ [Set_amplitude v]\<rparr>"

definition set_dither_amplitude :: "double \<Rightarrow> synth \<Rightarrow> synth" where
  "set_dither_amplitude v sy =
     sy\<lparr>dither_amplitude := v, calls := calls sy @ [Set_dither_amplitude v]\<rparr>"

definition set_frequency :: "double \<Rightarrow> synth \<Rightarrow> synth" where
  "set_frequency v sy = sy\<lparr>frequency := v, calls := calls sy @ [Set_frequency v]\<rparr>"

definition set_mode :: "int \<Rightarrow> synth \<Rightarrow> synth" where
  "set_mode m sy = sy\<lparr>synth_mode := m, calls := calls sy @ [Set_mode m]\<rparr>"

definition set_max_words :: "int \<Rightarrow> synth \<Rightarrow> synth" where
  "set_max_words n sy = sy\<lparr>synth_max_words := n, calls := calls sy @ [Set_max_words n]\<rparr>"

definition apply_settings :: "synth \<Rightarrow> synth" where
  "apply_settings sy = sy\<lparr>calls := calls sy @ [Apply_settings]\<rparr>"

definition restore_out_pins :: "synth \<Rightarrow> synth" where
  "restore_out_pins sy = sy\<lparr>calls := calls sy @ [Restore_out_pins]\<rparr>"

text \<open>Calls into the board support code, logged in order.\<close>

datatype pin_mode = INPUT | OUTPUT
datatype pin_level = LOW | HIGH
datatype hw_call = InitMorseRate int | PinMode int pin_mode | DigitalWrite int pin_level

text \<open>
  Everything outside the interpreter: the serial line (\<open>rx\<close> holds the bytes received
  and not yet read, \<open>tx\<close> the bytes written), the globals of
  \<^verbatim>\<open>transmitter_PiPico.h\<close> and the collaborator. The header declares the globals and
  does not define them: \<^verbatim>\<open>fox_len\<close> is declared as the length of \<^verbatim>\<open>fox_string\<close> and
  \<^verbatim>\<open>call_len\<close> as that of \<^verbatim>\<open>callsign\<close>; a property that needs this relation names it
  as a hypothesis. \<open>max_words\<close> is a global that \<^verbatim>\<open>CmdDefault\<close> reads; the header that
  declares it is not among the sources.
\<close>

record world =
  rx :: "char list"
  tx :: "(port \<times> char) list"
  key_down :: bool
  morse_rate :: int
  fox_len :: int
  fox_string :: "char list"
  call_len :: int
  callsign :: "char list"
  First_RF_Pin :: int
  Second_RF_Pin :: int
  max_words :: int
  rf_synth :: synth
  hw :: "hw_call list"

definition CRLF :: string where
  "CRLF = [CR, LF]"

definition ser_write :: "port \<Rightarrow> char \<Rightarrow> world \<Rightarrow> world" where
  "ser_write p c w = w\<lparr>tx := tx w @ [(p, c)]\<rparr>"

definition ser_print :: "port \<Rightarrow> string \<Rightarrow> world \<Rightarrow> world" where
  "ser_print p str w = w\<lparr>tx := tx w @ map (Pair p) str\<rparr>"

definition ser_println :: "port \<Rightarrow> string \<Rightarrow> world \<Rightarrow> world" where
  "ser_println p str w = ser_print p CRLF (ser_print p str w)"

text \<open>
  \<^verbatim>\<open>print(const char *)\<close> of the Arduino core returns without writing when it is
  handed a null pointer.
\<close>

definition ser_print_ptr :: "port \<Rightarrow> string option \<Rightarrow> world \<Rightarrow> world" where
  "ser_print_ptr p a w = (case a of None \<Rightarrow> w | Some str \<Rightarrow> ser_print p str w)"

text \<open>\<^verbatim>\<open>read()\<close> yields -1 on an empty queue, which the cast to \<^verbatim>\<open>char\<close> makes 0xFF.\<close>

definition ser_read :: "world \<Rightarrow> char \<times> world" where
  "ser_read w = (case rx w of [] \<Rightarrow> (CHR 0xFF, w) | c # cs \<Rightarrow> (c, w\<lparr>rx := cs\<rparr>))"

definition ser_available :: "world \<Rightarrow> bool" where
  "ser_available w = (rx w \<noteq> [])"

text \<open>Decimal output of integers, as \<^verbatim>\<open>Print::printNumber\<close> and \<^verbatim>\<open>Print::print(long)\<close>.\<close>

fun printNumber :: "nat \<Rightarrow> string" where
  "printNumber n =
     (if n < 10 then [''0123456789'' ! n]
      else printNumber (n div 10) @ [''0123456789'' ! (n mod 10)])"

declare printNumber.simps [simp del]

definition print_int :: "int \<Rightarrow> string" where
  "print_int n = (if n < 0 then CHR ''-'' # printNumber (nat (- n)) else printNumber (nat n))"

subsection \<open>The interpreter state\<close>

text \<open>
  A command handler receives the argument count and the argument vector. A slot of
  the vector holds a pointer to a token or the null pointer; the token a pointer
  refers to is the string the handler reads through it.
\<close>

type_synonym cmd_func = "int \<Rightarrow> string option list \<Rightarrow> world \<Rightarrow> error + world"

record cmd_t =
  cmd :: string
  func :: cmd_func

text \<open>
  The statics of \<^verbatim>\<open>cmdArduino.cpp\<close>: the message buffer \<open>msg\<close>, the cursor
  \<open>msg_ptr\<close> as an index into it, and the two heads \<open>cmd_tbl_list\<close> and \<open>cmd_tbl\<close> of
  the linked command table (a node pointer is the list that starts at the node).
  The header that defines \<^verbatim>\<open>MAX_MSG_SIZE\<close> is not among the sources. The buffer is
  declared as \<^verbatim>\<open>msg[MAX_MSG_SIZE]\<close>, so the constant is the length of the buffer, and
  every property holds for whatever value it has.
\<close>

record console =
  msg :: "char list"
  msg_ptr :: nat
  cmd_tbl_list :: "cmd_t list"
  cmd_tbl :: "cmd_t list"
  io :: world

definition MAX_MSG_SIZE :: "console \<Rightarrow> nat" where
  "MAX_MSG_SIZE s = length (msg s)"

definition cmd_prompt :: string where
  "cmd_prompt = ''CMD >> ''"

definition cmd_unrecog :: string where
  "cmd_unrecog = ''CMD: Command not recognized.''"

definition too_long_notice :: string where
  "too_long_notice = ''Command too long. Please reduce command size.''"

definition display_prompt :: "world \<Rightarrow> world" where
  "display_prompt w = ser_print Cmd_ser cmd_prompt (ser_println Cmd_ser [] w)"

subsection \<open>Tokenizing and dispatch\<close>

definition bind_err :: "error + 'a \<Rightarrow> ('a \<Rightarrow> error + 'b) \<Rightarrow> error + 'b" where
  "bind_err r f = (case r of Inl e \<Rightarrow> Inl e | Inr x \<Rightarrow> f x)"

text \<open>The pointer in slot \<open>i\<close> of the argument vector, and the string behind a pointer.\<close>

definition slot :: "string option list \<Rightarrow> nat \<Rightarrow> error + string option" where
  "slot argv i = (if i < length argv then Inr (argv ! i) else Inl (OutOfBounds (int i)))"

definition deref :: "string option \<Rightarrow> error + string" where
  "deref a = (case a of None \<Rightarrow> Inl NullPointer | Some str \<Rightarrow> Inr str)"

definition arg :: "string option list \<Rightarrow> nat \<Rightarrow> error + string" where
  "arg argv i = bind_err (slot argv i) deref"

text \<open>
  \<^verbatim>\<open>strtok(s, " ")\<close> of the C library on the buffer \<open>buf\<close>, resumed at index \<open>p\<close>:
  it skips spaces; at the terminator it returns the null pointer; otherwise the token
  runs to the next space or terminator, a space that ends it is overwritten with the
  terminator, and the scan resumes behind it. The result is the token, the buffer and
  the index to resume at. Reading past the end of the buffer is an error.
\<close>

definition strtok_at :: "char list \<Rightarrow> nat \<Rightarrow> error + (string option \<times> char list \<times> nat)" where
  "strtok_at buf p =
     (let s = p + length (takeWhile (\<lambda>c. c = SPC) (drop p buf)) in
      if length buf \<le> s then Inl (OutOfBounds (int s))
      else if buf ! s = NUL then Inr (None, buf, s)
      else
        let tok = takeWhile (\<lambda>c. c \<noteq> SPC \<and> c \<noteq> NUL) (drop s buf);
            e = s + length tok
        in if length buf \<le> e then Inl (OutOfBounds (int e))
           else if buf ! e = NUL then Inr (Some tok, buf, e)
           else Inr (Some tok, buf[e := NUL], e + 1))"

text \<open>
  The loop \<^verbatim>\<open>do { argv[++i] = strtok(NULL, " "); } while ((i < 30) && (argv[i] != NULL));\<close>
  entered with counter \<open>i\<close>. The vector has the length of the array \<^verbatim>\<open>argv\<close>; a store
  to a slot it does not have is an error.
\<close>

function tok_loop ::
  "nat \<Rightarrow> string option list \<Rightarrow> char list \<Rightarrow> nat \<Rightarrow> error + (nat \<times> string option list \<times> char list)"
where
  "tok_loop i argv buf p =
     (case strtok_at buf p of
        Inl e \<Rightarrow> Inl e
      | Inr (t, buf', p') \<Rightarrow>
          let i' = i + 1 in
          if length argv \<le> i' then Inl (OutOfBounds (int i'))
          else
            let argv' = argv[i' := t] in
            if i' < 30 \<and> t \<noteq> None then tok_loop i' argv' buf' p'
            else Inr (i', argv', buf'))"
  by pat_completeness auto
termination
  by (relation "measure (\<lambda>(i, argv, buf, p). 30 - i)") auto

declare tok_loop.simps [simp del]

text \<open>
  The first part of \<^verbatim>\<open>Cmd::parse\<close>: the local array \<^verbatim>\<open>char *argv[30]\<close>, the first call
  of \<^verbatim>\<open>strtok\<close> on the line and the loop. The result is \<^verbatim>\<open>argc\<close>, the vector and the
  buffer as the tokenizer left it. The array is not initialised; a slot that is never
  stored shows as the null pointer, and no handler reads a slot beyond \<^verbatim>\<open>argc\<close>.
\<close>

definition tokenize :: "char list \<Rightarrow> error + (nat \<times> string option list \<times> char list)" where
  "tokenize line =
     (case strtok_at line 0 of
        Inl e \<Rightarrow> Inl e
      | Inr (t, buf, p) \<Rightarrow> tok_loop 0 ((replicate 30 None)[0 := t]) buf p)"

definition unrecognized :: "string \<Rightarrow> world \<Rightarrow> world" where
  "unrecognized a0 w =
     ser_println Cmd_ser [CHR 0x27]
       (ser_print Cmd_ser a0
         (ser_print Cmd_ser [SPC, CHR 0x27]
           (ser_print Cmd_ser cmd_unrecog w)))"

text \<open>
  The second part of \<^verbatim>\<open>Cmd::parse\<close>: the scan of the command table from the entry
  \<open>cmd_tbl\<close> and what follows the scan. \<^verbatim>\<open>strcmp\<close> and \<^verbatim>\<open>strlen\<close> dereference
  \<^verbatim>\<open>argv[0]\<close>.
\<close>

fun scan_tbl :: "cmd_t list \<Rightarrow> int \<Rightarrow> string option list \<Rightarrow> world \<Rightarrow> error + world" where
  "scan_tbl [] argc argv w =
     bind_err (arg argv 0) (\<lambda>a0.
       Inr (display_prompt (if 0 < length a0 then unrecognized a0 w else w)))"
| "scan_tbl (e # es) argc argv w =
     bind_err (arg argv 0) (\<lambda>a0.
       if a0 = cmd e then
         bind_err (func e argc argv w) (\<lambda>w'. Inr (display_prompt w'))
       else scan_tbl es argc argv w)"

definition parse :: "char list \<Rightarrow> console \<Rightarrow> error + (char list \<times> console)" where
  "parse line s =
     (case tokenize line of
        Inl e \<Rightarrow> Inl e
      | Inr (argc, argv, buf) \<Rightarrow>
          (case scan_tbl (cmd_tbl s) (int argc) argv (io s) of
             Inl e \<Rightarrow> Inl e
           | Inr w \<Rightarrow> Inr (buf, s\<lparr>io := w\<rparr>)))"

subsection \<open>The input state machine\<close>

text \<open>
  \<^verbatim>\<open>Cmd::handler\<close>: one byte is read from the port and handled. \<^verbatim>\<open>parse\<close> is
  called on the message buffer, which it changes in place.
\<close>

definition handler :: "console \<Rightarrow> error + console" where
  "handler s0 =
     (let (c, w) = ser_read (io s0); s = s0\<lparr>io := w\<rparr> in
      if c = CR then
        (if msg_ptr s < length (msg s) then
           let s1 = s\<lparr>msg := (msg s)[msg_ptr s := NUL], io := ser_print Cmd_ser CRLF (io s)\<rparr> in
           (case parse (msg s1) s1 of
              Inl e \<Rightarrow> Inl e
            | Inr (buf, s2) \<Rightarrow> Inr (s2\<lparr>msg := buf, msg_ptr := 0\<rparr>))
         else Inl (OutOfBounds (int (msg_ptr s))))
      else if c = BS \<or> c = DEL then
        (if 0 < msg_ptr s then
           (if msg_ptr s < length (msg s) then
              Inr (s\<lparr>io := ser_write Cmd_ser c (io s),
                     msg := (msg s)[msg_ptr s := SPC],
                     msg_ptr := msg_ptr s - 1\<rparr>)
            else Inl (OutOfBounds (int (msg_ptr s))))
         else Inr s)
      else
        (if msg_ptr s < length (msg s) then
           let s1 = s\<lparr>io := ser_write Cmd_ser c (io s),
                      msg := (msg s)[msg_ptr s := c],
                      msg_ptr := msg_ptr s + 1\<rparr> in
           if int (msg_ptr s1) = int (MAX_MSG_SIZE s1) - 1 then
             Inr (s1\<lparr>io := ser_println Cmd_ser too_long_notice (io s1), msg_ptr := 0\<rparr>)
           else Inr s1
         else Inl (OutOfBounds (int (msg_ptr s)))))"

text \<open>
  \<^verbatim>\<open>Cmd::poll\<close>: the handler runs while bytes are available. A command handler may
  change the world at will, so the loop is not known to end; not returning is
  \<open>None\<close>.
\<close>

partial_function (option) poll :: "console \<Rightarrow> (error + console) option" where
  "poll s =
     (if ser_available (io s) then
        (case handler s of
           Inl e \<Rightarrow> Some (Inl e)
         | Inr s' \<Rightarrow> poll s')
      else Some (Inr s))"

text \<open>
  \<^verbatim>\<open>Cmd::add\<close>: a new entry with a copy of the name (\<^verbatim>\<open>strcpy\<close> copies up to the
  terminator) is linked in front of \<open>cmd_tbl_list\<close>, and both heads point to it.
\<close>

definition add :: "string \<Rightarrow> cmd_func \<Rightarrow> console \<Rightarrow> console" where
  "add name f s =
     (let tbl = \<lparr>cmd = takeWhile (\<lambda>c. c \<noteq> NUL) name, func = f\<rparr> # cmd_tbl_list s
      in s\<lparr>cmd_tbl := tbl, cmd_tbl_list := tbl\<rparr>)"

subsection \<open>The command handlers\<close>

text \<open>
  What the handlers take from the C library, the Arduino core and the compiler, none of
  it code of the sketch: the conversions \<^verbatim>\<open>strtod\<close> and \<^verbatim>\<open>strtol\<close>, the text that
  \<^verbatim>\<open>Print::print(double, digits)\<close> writes, and the expansions of \<^verbatim>\<open>__DATE__\<close> and
  \<^verbatim>\<open>__TIME__\<close>. \<open>status_report\<close> is the text \<^verbatim>\<open>PrintStatus\<close> writes: it formats
  floating-point values it reads from the collaborator.
\<close>

record platform =
  strtod :: "string \<Rightarrow> double"
  strtol :: "string \<Rightarrow> nat \<Rightarrow> int"
  printFloat :: "double \<Rightarrow> nat \<Rightarrow> string"
  compile_DATE :: string
  compile_TIME :: string
  status_report :: "world \<Rightarrow> string"

text \<open>The byte \<^verbatim>\<open>str[i]\<close> of a C string, for \<open>i\<close> up to its terminator.\<close>

definition cstr_at :: "string \<Rightarrow> nat \<Rightarrow> char" where
  "cstr_at str i = (if i < length str then str ! i else NUL)"

text \<open>The C string that starts a character array; an array with no terminator is overrun.\<close>

definition cstr_of :: "char list \<Rightarrow> error + string" where
  "cstr_of a =
     (if NUL \<in> set a then Inr (takeWhile (\<lambda>c. c \<noteq> NUL) a)
      else Inl (OutOfBounds (int (length a))))"

text \<open>
  \<^verbatim>\<open>Str2Num\<close> takes the base as a \<^verbatim>\<open>uint8_t\<close> and returns an \<^verbatim>\<open>int32_t\<close>: the base
  is reduced to eight bits, and the \<^verbatim>\<open>long\<close> that \<^verbatim>\<open>strtol\<close> yields is narrowed to 32
  bits, a value that does not fit wrapping around in two's complement.
\<close>

definition to_int32 :: "int \<Rightarrow> int" where
  "to_int32 n = (n + 2147483648) mod 4294967296 - 2147483648"

definition Str2Num :: "platform \<Rightarrow> string \<Rightarrow> nat \<Rightarrow> int" where
  "Str2Num pf str base = to_int32 (strtol pf str (base mod 256))"

definition Str2Double :: "platform \<Rightarrow> string \<Rightarrow> double" where
  "Str2Double pf str = strtod pf str"

definition PrintNumArgError :: "int \<Rightarrow> string option list \<Rightarrow> int \<Rightarrow> world \<Rightarrow> error + world" where
  "PrintNumArgError argc argv expectedArgc0 w =
     (let expectedArgc = expectedArgc0 - 1 in
      bind_err (slot argv 0) (\<lambda>a0.
        let w1 = ser_print Serial ''#Error: '' w;
            w2 = ser_print_ptr Serial a0 w1;
            w3 = ser_print Serial '' requires '' w2;
            w4 = ser_print Serial (print_int expectedArgc) w3;
            w5 = ser_print Serial '' argument'' w4;
            w6 = (if expectedArgc \<noteq> 1 then ser_write Serial (CHR ''s'') w5 else w5);
            w7 = ser_print Serial ''. Received '' w6;
            w8 = ser_print Serial (print_int (argc - 1)) w7
        in Inr (ser_println Serial ''.'' w8)))"

definition help_text :: "platform \<Rightarrow> string list" where
  "help_text pf =
     [''******'',
      ''Compiled: '' @ compile_DATE pf @ '', '' @ compile_TIME pf @ '' '',
      ''Commands:'',
      ''  ? or help - Print this help text'',
      ''  stat - Print the current status'',
      ''  keydown val - transmit continuously (val = 1) or normally (val = 0)'',
      ''  rate wpm - set the morse rate to wpm words per minute'',
      ''  fox str - set str as fox identifier, e.g. MOS'',
      ''  fox num - set 0 <= num <= 7 as fox number. 0 gives MO, 1 gives MOE etc'',
      ''  fox     - print the current fox string'',
      ''  call str - set str as call sign, e.g. SA5BYZ'',
      ''  call     - send no call sign'',
      ''  dither val - set the amount of dither, 0.0 to 2.0'',
      ''  ampl val - set the amplitude, 0.0 to 2.0'',
      ''  ampl3 val - set the amplitude of HD3, -0.5 to 0.5'',
      ''  ph3 val - set the phase of HD3, degrees'',
      ''  freq val - set the frequency, Hz'',
      ''  mode val - set the signal generation mode:'',
      ''             0 - CLKDIV, 1 - comparator, 2 - binary sigma delta,'',
      ''             3 - trinary sigma delta, 4 - click free binary sigma delta,'',
      ''             5 - click free trinary sigma delta'',
      ''  bufsize val - set max number of words in buffer'',
      ''  default - set all parameters to default values'',
      ''  off val - turn output off'',
      ''            0 - turn output on'',
      ''            1 - one high, one low'',
      ''            2 - both low'',
      ''            3 - both high'',
      ''            4 - both high-Z'']"

definition CmdPrintHelp :: "platform \<Rightarrow> cmd_func" where
  "CmdPrintHelp pf argc argv w =
     (let num_args = 1 in
      if argc \<noteq> num_args then PrintNumArgError argc argv num_args w
      else Inr (fold (ser_println Serial) (help_text pf) w))"

definition PrintStatus :: "platform \<Rightarrow> world \<Rightarrow> world" where
  "PrintStatus pf w = ser_print Serial (status_report pf w) w"

definition CmdPrintStatus :: "platform \<Rightarrow> cmd_func" where
  "CmdPrintStatus pf argc argv w =
     (let num_args = 1 in
      if argc \<noteq> num_args then PrintNumArgError argc argv num_args w
      else Inr (PrintStatus pf w))"

definition initMorseRate :: "int \<Rightarrow> world \<Rightarrow> world" where
  "initMorseRate wpm w = w\<lparr>hw := hw w @ [InitMorseRate wpm]\<rparr>"

definition CmdMorseRate :: "platform \<Rightarrow> cmd_func" where
  "CmdMorseRate pf argc argv w =
     (let num_args = 2 in
      if argc \<noteq> num_args then PrintNumArgError argc argv num_args w
      else
        bind_err (arg argv 1) (\<lambda>a1.
          let rate = Str2Num pf a1 10 in
          if rate < 5 \<or> rate > 100 then
            Inr (ser_print Serial ''Morse rate must be between 5 and 100'' w)
          else
            let w1 = w\<lparr>morse_rate := rate\<rparr> in
            Inr (initMorseRate (morse_rate w1) w1)))"

definition pinMode :: "int \<Rightarrow> pin_mode \<Rightarrow> world \<Rightarrow> world" where
  "pinMode pin m w = w\<lparr>hw := hw w @ [PinMode pin m]\<rparr>"

definition digitalWrite :: "int \<Rightarrow> pin_level \<Rightarrow> world \<Rightarrow> world" where
  "digitalWrite pin v w = w\<lparr>hw := hw w @ [DigitalWrite pin v]\<rparr>"

definition CmdOff :: "platform \<Rightarrow> cmd_func" where
  "CmdOff pf argc argv w =
     (if argc \<noteq> 2 then PrintNumArgError argc argv 2 w
      else
        bind_err (arg argv 1) (\<lambda>a1.
          let m = Str2Num pf a1 10 in
          if m > 4 \<or> m < 0 then
            Inr (ser_print Serial ''Parameter must be between 0 and 4'' w)
          else if m = 0 then
            Inr (w\<lparr>rf_synth := restore_out_pins (rf_synth w)\<rparr>)
          else
            let w1 = pinMode (Second_RF_Pin w) OUTPUT (pinMode (First_RF_Pin w) OUTPUT w) in
            if m = 1 then
              Inr (digitalWrite (Second_RF_Pin w1) LOW (digitalWrite (First_RF_Pin w1) HIGH w1))
            else if m = 2 then
              Inr (digitalWrite (Second_RF_Pin w1) LOW (digitalWrite (First_RF_Pin w1) LOW w1))
            else if m = 3 then
              Inr (digitalWrite (Second_RF_Pin w1) HIGH (digitalWrite (First_RF_Pin w1) HIGH w1))
            else if m = 4 then
              Inr (pinMode (Second_RF_Pin w1) INPUT (pinMode (First_RF_Pin w1) INPUT w1))
            else Inr w1))"

definition CmdAmpl :: "platform \<Rightarrow> cmd_func" where
  "CmdAmpl pf argc argv w =
     (if argc = 1 then
        Inr (ser_println Serial (printFloat pf (get_amplitude (rf_synth w)) 2) w)
      else if argc > 2 then PrintNumArgError argc argv 2 w
      else
        bind_err (arg argv 1) (\<lambda>a1.
          let v = Str2Double pf a1 in
          if dle (Finite 0) v \<and> dle v (Finite 2) then
            Inr (w\<lparr>rf_synth := apply_settings (set_amplitude v (rf_synth w))\<rparr>)
          else Inr (ser_println Serial ''Invalid amplitude value'' w)))"

text \<open>
  \<^verbatim>\<open>FoxCopy\<close>: the loop \<^verbatim>\<open>for(int ii=0; ii <= fox_len; ii++)\<close> entered with counter
  \<open>ii\<close>, then the store of the terminator. The destination has the length of the
  array \<^verbatim>\<open>fox_string\<close>; a store to an index it does not have is an error.
\<close>

function FoxCopy_loop :: "string \<Rightarrow> nat \<Rightarrow> world \<Rightarrow> error + world" where
  "FoxCopy_loop str ii w =
     (if int ii \<le> fox_len w then
        (if ii < length (fox_string w) then
           let w1 = w\<lparr>fox_string := (fox_string w)[ii := cstr_at str ii]\<rparr> in
           if cstr_at str ii = NUL then Inr w1 else FoxCopy_loop str (ii + 1) w1
         else Inl (OutOfBounds (int ii)))
      else Inr w)"
  by pat_completeness auto
termination
  by (relation "measure (\<lambda>(str, ii, w). length (fox_string w) - ii)") auto

declare FoxCopy_loop.simps [simp del]

definition FoxCopy :: "string \<Rightarrow> world \<Rightarrow> error + world" where
  "FoxCopy str w =
     bind_err (FoxCopy_loop str 0 w) (\<lambda>w1.
       let k = fox_len w1 - 1 in
       if 0 \<le> k \<and> k < int (length (fox_string w1)) then
         Inr (w1\<lparr>fox_string := (fox_string w1)[nat k := NUL]\<rparr>)
       else Inl (OutOfBounds k))"

definition CmdFox :: "platform \<Rightarrow> cmd_func" where
  "CmdFox pf argc argv w =
     (if argc = 1 then
        bind_err (cstr_of (fox_string w)) (\<lambda>fs.
          Inr (ser_println Serial [CHR 0x27]
                 (ser_print Serial fs (ser_print Serial (''Fox string: '' @ [CHR 0x27]) w))))
      else if argc > 2 then PrintNumArgError argc argv 2 w
      else
        bind_err (arg argv 1) (\<lambda>a1.
          let c0 = cstr_at a1 0 in
          if (48::nat) \<le> of_char c0 \<and> of_char c0 \<le> (55::nat) \<and> length a1 = 1 then
            (let n = Str2Num pf a1 10 in
             if n = 0 then FoxCopy ''MO'' w
             else if n = 1 then FoxCopy ''MOE'' w
             else if n = 2 then FoxCopy ''MOI'' w
             else if n = 3 then FoxCopy ''MOS'' w
             else if n = 4 then FoxCopy ''MOH'' w
             else if n = 5 then FoxCopy ''MO5'' w
             else if n = 6 then FoxCopy ''MON'' w
             else if n = 7 then FoxCopy ''MOD'' w
             else FoxCopy ''MO'' w)
          else FoxCopy a1 w))"

text \<open>\<^verbatim>\<open>CallCopy\<close>, the same loop on \<^verbatim>\<open>callsign\<close> and \<^verbatim>\<open>call_len\<close>.\<close>

function CallCopy_loop :: "string \<Rightarrow> nat \<Rightarrow> world \<Rightarrow> error + world" where
  "CallCopy_loop str ii w =
     (if int ii \<le> call_len w then
        (if ii < length (callsign w) then
           let w1 = w\<lparr>callsign := (callsign w)[ii := cstr_at str ii]\<rparr> in
           if cstr_at str ii = NUL then Inr w1 else CallCopy_loop str (ii + 1) w1
         else Inl (OutOfBounds (int ii)))
      else Inr w)"
  by pat_completeness auto
termination
  by (relation "measure (\<lambda>(str, ii, w). length (callsign w) - ii)") auto

declare CallCopy_loop.simps [simp del]

definition CallCopy :: "string \<Rightarrow> world \<Rightarrow> error + world" where
  "CallCopy str w =
     bind_err (CallCopy_loop str 0 w) (\<lambda>w1.
       let k = call_len w1 - 1 in
       if 0 \<le> k \<and> k < int (length (callsign w1)) then
         Inr (w1\<lparr>callsign := (callsign w1)[nat k := NUL]\<rparr>)
       else Inl (OutOfBounds k))"

definition CmdCall :: "platform \<Rightarrow> cmd_func" where
  "CmdCall pf argc argv w =
     (if argc = 1 then CallCopy [] w
      else if argc > 2 then PrintNumArgError argc argv 2 w
      else bind_err (arg argv 1) (\<lambda>a1. CallCopy a1 w))"

text \<open>
  \<^verbatim>\<open>CmdDefault\<close> reads neither the argument count nor the argument vector: it calls
  five setters and the commit operation.
\<close>

definition CmdDefault :: cmd_func where
  "CmdDefault argc argv w =
     Inr (w\<lparr>rf_synth :=
            apply_settings
              (set_max_words (max_words w)
                (set_mode 5
                  (set_frequency (Finite 3579900)
                    (set_amplitude (Finite 1)
                      (set_dither_amplitude (Finite 1) (rf_synth w))))))\<rparr>)"

text \<open>
  \<^verbatim>\<open>RegisterCommands\<close>: the sixteen registrations, in the order of the source. The
  handlers that are not embedded above are the fields of \<open>other_cmds\<close>.
\<close>

record other_cmds =
  CmdKeyDown :: cmd_func
  CmdDither :: cmd_func
  CmdAmplHD3 :: cmd_func
  CmdPhaseHD3 :: cmd_func
  CmdFreq :: cmd_func
  CmdMode :: cmd_func
  CmdBufsize :: cmd_func

definition RegisterCommands :: "platform \<Rightarrow> other_cmds \<Rightarrow> console \<Rightarrow> console" where
  "RegisterCommands pf oc s =
     fold (\<lambda>(name, f). add name f)
       [(''?'', CmdPrintHelp pf),
        (''help'', CmdPrintHelp pf),
        (''stat'', CmdPrintStatus pf),
        (''keydown'', CmdKeyDown oc),
        (''rate'', CmdMorseRate pf),
        (''fox'', CmdFox pf),
        (''call'', CmdCall pf),
        (''dither'', CmdDither oc),
        (''ampl'', CmdAmpl pf),
        (''ampl3'', CmdAmplHD3 oc),
        (''ph3'', CmdPhaseHD3 oc),
        (''freq'', CmdFreq oc),
        (''mode'', CmdMode oc),
        (''bufsize'', CmdBufsize oc),
        (''default'', CmdDefault),
        (''off'', CmdOff pf)] s"

subsection \<open>Vocabulary of the properties\<close>

text \<open>A byte that is neither carriage return, backspace nor delete.\<close>

definition plain :: "char \<Rightarrow> bool" where
  "plain c = (c \<noteq> CR \<and> c \<noteq> BS \<and> c \<noteq> DEL)"

text \<open>A token: a non-empty string with neither a space nor a zero byte.\<close>

definition token :: "string \<Rightarrow> bool" where
  "token t = (t \<noteq> [] \<and> SPC \<notin> set t \<and> NUL \<notin> set t)"

text \<open>
  The standard message of an arity mismatch as the specification words it: the command
  \<open>name\<close> requires \<open>n\<close> arguments and received \<open>m\<close>.
\<close>

definition arity_message :: "string \<Rightarrow> int \<Rightarrow> int \<Rightarrow> string" where
  "arity_message name n m =
     ''#Error: '' @ name @ '' requires '' @ print_int n @
     (if n = 1 then '' argument'' else '' arguments'') @
     ''. Received '' @ print_int m @ ''.''"

subsection \<open>Sample states\<close>

definition demo_world :: world where
  "demo_world =
     \<lparr>rx = [], tx = [], key_down = False, morse_rate = 12,
      fox_len = 8, fox_string = ''MOE'' @ replicate 5 NUL,
      call_len = 8, callsign = replicate 8 NUL,
      First_RF_Pin = 0, Second_RF_Pin = 1,
      max_words = 2000,
      rf_synth = \<lparr>dither_amplitude = Finite 0, amplitude = Finite (1 / 2),
                  frequency = Finite 3500000, synth_mode = 0, synth_max_words = 100,
                  calls = []\<rparr>,
      hw = []\<rparr>"

text \<open>
  A console with a buffer of \<open>n\<close> bytes in which \<open>typed\<close> has been entered, an empty
  command table and \<open>input\<close> waiting on the serial line.
\<close>

definition demo_console :: "nat \<Rightarrow> string \<Rightarrow> string \<Rightarrow> console" where
  "demo_console n typed input =
     \<lparr>msg = typed @ replicate (n - length typed) NUL, msg_ptr = length typed,
      cmd_tbl_list = [], cmd_tbl = [],
      io = demo_world\<lparr>rx := input\<rparr>\<rparr>"

definition demo_platform :: platform where
  "demo_platform =
     \<lparr>strtod = (\<lambda>str. if str = ''2.5'' then Finite (5 / 2)
                       else if str = ''1.5'' then Finite (3 / 2) else Finite 0),
      strtol = (\<lambda>str base. 0),
      printFloat = (\<lambda>v digits. ''1.00''),
      compile_DATE = ''Jan  1 2025'',
      compile_TIME = ''12:00:00'',
      status_report = (\<lambda>w. [])\<rparr>"

text \<open>A handler that writes the mark \<open>m\<close> on \<^verbatim>\<open>Serial\<close> and does nothing else.\<close>

definition mark :: "string \<Rightarrow> cmd_func" where
  "mark m argc argv w = Inr (ser_print Serial m w)"

definition demo_others :: other_cmds where
  "demo_others =
     \<lparr>CmdKeyDown = mark ''keydown'', CmdDither = mark ''dither'',
      CmdAmplHD3 = mark ''ampl3'', CmdPhaseHD3 = mark ''ph3'',
      CmdFreq = mark ''freq'', CmdMode = mark ''mode'',
      CmdBufsize = mark ''bufsize''\<rparr>"

section \<open>Properties\<close>

subsection \<open>The input state machine\<close>

lemma handler_plain:
  assumes "plain c" and "rx (io s) = c # rest" and "msg_ptr s + 2 < length (msg s)"
  shows "handler s =
      Inr (s\<lparr>io := (io s)\<lparr>rx := rest, tx := tx (io s) @ [(Cmd_ser, c)]\<rparr>,
             msg := (msg s)[msg_ptr s := c],
             msg_ptr := msg_ptr s + 1\<rparr>)"
  using assms
  by (auto simp: handler_def ser_read_def ser_write_def plain_def MAX_MSG_SIZE_def Let_def)

lemma handler_overflow:
  assumes "plain c" and "rx (io s) = c # rest" and "msg_ptr s + 2 = length (msg s)"
  shows "handler s =
      Inr (s\<lparr>io := (io s)\<lparr>rx := rest,
                 tx := tx (io s) @ map (Pair Cmd_ser) (c # too_long_notice @ CRLF)\<rparr>,
             msg := (msg s)[msg_ptr s := c],
             msg_ptr := 0\<rparr>)"
  using assms
  by (auto simp: handler_def ser_read_def ser_write_def plain_def MAX_MSG_SIZE_def Let_def
      ser_println_def ser_print_def)

lemma poll_step:
  assumes "rx (io s) \<noteq> []" and "handler s = Inr s'"
  shows "poll s = poll s'"
  using assms by (subst poll.simps) (simp add: ser_available_def)

lemma poll_done:
  assumes "rx (io s) = []"
  shows "poll s = Some (Inr s)"
  using assms by (subst poll.simps) (simp add: ser_available_def)

text \<open>
  Plain bytes that leave the buffer short of its last free slot are echoed and stored
  in order; the loop then goes on with the rest of the input.
\<close>

lemma poll_plain:
  assumes "list_all plain bs" and "rx (io s) = bs @ rest"
    and "msg_ptr s + length bs + 1 < length (msg s)"
  shows "poll s =
      poll (s\<lparr>io := (io s)\<lparr>rx := rest, tx := tx (io s) @ map (Pair Cmd_ser) bs\<rparr>,
               msg := take (msg_ptr s) (msg s) @ bs @ drop (msg_ptr s + length bs) (msg s),
               msg_ptr := msg_ptr s + length bs\<rparr>)"
  using assms
proof (induction bs arbitrary: s)
  case Nil
  then have "rest = rx (io s)" by simp
  then show ?case by simp
next
  case (Cons c cs)
  let ?s1 = "s\<lparr>io := (io s)\<lparr>rx := cs @ rest, tx := tx (io s) @ [(Cmd_ser, c)]\<rparr>,
               msg := (msg s)[msg_ptr s := c],
               msg_ptr := msg_ptr s + 1\<rparr>"
  have h: "handler s = Inr ?s1"
    using Cons.prems by (intro handler_plain) auto
  have p: "poll s = poll ?s1"
    using Cons.prems h by (intro poll_step) auto
  have m: "take (Suc (msg_ptr s)) ((msg s)[msg_ptr s := c]) = take (msg_ptr s) (msg s) @ [c]"
    using Cons.prems by (simp add: take_Suc_conv_app_nth)
  have "poll ?s1 =
      poll (?s1\<lparr>io := (io ?s1)\<lparr>rx := rest, tx := tx (io ?s1) @ map (Pair Cmd_ser) cs\<rparr>,
               msg := take (msg_ptr ?s1) (msg ?s1) @ cs @ drop (msg_ptr ?s1 + length cs) (msg ?s1),
               msg_ptr := msg_ptr ?s1 + length cs\<rparr>)"
    using Cons.prems by (intro Cons.IH) auto
  with p m show ?case by simp
qed

text \<open>
  From an empty buffer of capacity \<open>n\<close>, the plain byte number \<open>n - 1\<close> fills the last
  free slot: the notice is written and the cursor goes back to the start.
\<close>

lemma poll_fill_overflow:
  assumes "msg_ptr s = 0" and "rx (io s) = bs @ rest" and "list_all plain bs"
    and "bs \<noteq> []" and "length bs + 1 = length (msg s)"
  shows "poll s =
      poll (s\<lparr>io := (io s)\<lparr>rx := rest,
                  tx := tx (io s) @ map (Pair Cmd_ser) (bs @ too_long_notice @ CRLF)\<rparr>,
               msg := bs @ drop (length bs) (msg s),
               msg_ptr := 0\<rparr>)"
proof -
  obtain cs c where bs: "bs = cs @ [c]"
    using assms(4) by (metis rev_exhaust)
  let ?s1 = "s\<lparr>io := (io s)\<lparr>rx := c # rest, tx := tx (io s) @ map (Pair Cmd_ser) cs\<rparr>,
               msg := take (msg_ptr s) (msg s) @ cs @ drop (msg_ptr s + length cs) (msg s),
               msg_ptr := msg_ptr s + length cs\<rparr>"
  have p1: "poll s = poll ?s1"
    using assms bs by (intro poll_plain) auto
  let ?s2 = "?s1\<lparr>io := (io ?s1)\<lparr>rx := rest,
                 tx := tx (io ?s1) @ map (Pair Cmd_ser) (c # too_long_notice @ CRLF)\<rparr>,
             msg := (msg ?s1)[msg_ptr ?s1 := c],
             msg_ptr := 0\<rparr>"
  have h: "handler ?s1 = Inr ?s2"
    using assms bs by (intro handler_overflow) auto
  have p2: "poll ?s1 = poll ?s2"
    using h by (intro poll_step) auto
  have m: "(cs @ drop (length cs) (msg s))[length cs := c] = cs @ c # drop (Suc (length cs)) (msg s)"
  proof -
    have "drop (length cs) (msg s) = msg s ! length cs # drop (Suc (length cs)) (msg s)"
      using assms bs by (intro Cons_nth_drop_Suc [symmetric]) simp
    then show ?thesis by (simp add: list_update_append)
  qed
  show ?thesis
    using p1 p2 m assms bs by simp
qed

text \<open>
  C9. When the cursor is at the start of the buffer, a backspace or delete byte changes
  nothing: the handler returns the state it was given, from which only the byte it
  read has been taken off the receive queue. Buffer, cursor and output are the same.
\<close>

theorem backspace_at_start_is_noop:
  assumes "msg_ptr s = 0" and "rx (io s) = c # rest" and "c = BS \<or> c = DEL"
  shows "handler s = Inr (s\<lparr>io := (io s)\<lparr>rx := rest\<rparr>\<rparr>)"
  using assms by (auto simp: handler_def ser_read_def)

theorem backspace_at_start_is_noop_witness:
  "handler (demo_console 60 [] [DEL]) = Inr (demo_console 60 [] [])"
  using backspace_at_start_is_noop [of "demo_console 60 [] [DEL]" DEL "[]"]
  by (simp add: demo_console_def demo_world_def)

text \<open>
  C1. When the cursor is past the start of the buffer, a backspace or delete byte is
  echoed and the cursor moves back by one. The space is stored in the slot at the
  cursor, one slot behind the character that is deleted: the character immediately
  before the cursor stays as it was.
\<close>

theorem backspace_blanks_slot_at_cursor:
  assumes "0 < msg_ptr s" and "msg_ptr s < length (msg s)"
    and "rx (io s) = c # rest" and "c = BS \<or> c = DEL"
  shows "handler s =
      Inr (s\<lparr>io := (io s)\<lparr>rx := rest, tx := tx (io s) @ [(Cmd_ser, c)]\<rparr>,
             msg := (msg s)[msg_ptr s := SPC],
             msg_ptr := msg_ptr s - 1\<rparr>)
    \<and> (msg s)[msg_ptr s := SPC] ! (msg_ptr s - 1) = msg s ! (msg_ptr s - 1)"
  using assms by (auto simp: handler_def ser_read_def ser_write_def)

theorem backspace_blanks_slot_at_cursor_witness:
  "handler (demo_console 8 ''ab'' [BS]) =
     Inr \<lparr>msg = ''ab'' @ SPC # replicate 5 NUL, msg_ptr = 1, cmd_tbl_list = [], cmd_tbl = [],
          io = demo_world\<lparr>tx := [(Cmd_ser, BS)]\<rparr>\<rparr>
   \<and> (''ab'' @ SPC # replicate 5 NUL) ! 1 = CHR ''b''"
  using backspace_blanks_slot_at_cursor [of "demo_console 8 ''ab'' [BS]" BS "[]"]
  by (simp add: demo_console_def demo_world_def numeral_eq_Suc)

text \<open>
  C2 does not hold as it is worded (capacity - 1 plain bytes followed by one more):
  with a buffer of 60 bytes, 59 plain bytes followed by one more leave the cursor at 1
  and the last byte in the buffer. The recovery has run on byte 59, and byte 60 has
  started a new line.
\<close>

theorem overflow_after_capacity_bytes_counterexample:
  "poll (demo_console 60 [] (replicate 60 (CHR ''x''))) =
     Some (Inr \<lparr>msg = replicate 59 (CHR ''x'') @ [NUL], msg_ptr = 1,
                cmd_tbl_list = [], cmd_tbl = [],
                io = demo_world\<lparr>tx := map (Pair Cmd_ser)
                       (replicate 59 (CHR ''x'') @ too_long_notice @ CRLF @ ''x'')\<rparr>\<rparr>)"
proof -
  let ?s = "demo_console 60 [] (replicate 60 (CHR ''x''))"
  let ?bs = "replicate 59 (CHR ''x'')"
  have r: "replicate 60 (CHR ''x'') = ?bs @ ''x''"
    by (simp add: numeral_eq_Suc replicate_append_same)
  let ?s1 = "?s\<lparr>io := (io ?s)\<lparr>rx := ''x'',
                  tx := tx (io ?s) @ map (Pair Cmd_ser) (?bs @ too_long_notice @ CRLF)\<rparr>,
               msg := ?bs @ drop (length ?bs) (msg ?s),
               msg_ptr := 0\<rparr>"
  have p1: "poll ?s = poll ?s1"
    by (rule poll_fill_overflow)
       (simp_all add: demo_console_def demo_world_def r list_all_iff plain_def)
  let ?s2 = "?s1\<lparr>io := (io ?s1)\<lparr>rx := [], tx := tx (io ?s1) @ [(Cmd_ser, CHR ''x'')]\<rparr>,
               msg := (msg ?s1)[msg_ptr ?s1 := CHR ''x''],
               msg_ptr := msg_ptr ?s1 + 1\<rparr>"
  have h: "handler ?s1 = Inr ?s2"
    by (rule handler_plain) (simp_all add: plain_def demo_console_def)
  have p2: "poll ?s1 = poll ?s2"
    using h by (intro poll_step) simp_all
  have p3: "poll ?s2 = Some (Inr ?s2)"
    by (rule poll_done) simp
  have m: "(?bs @ drop (length ?bs) (msg ?s))[0 := CHR ''x''] = ?bs @ [NUL]"
    by (simp add: demo_console_def list_update_append numeral_eq_Suc)
  show ?thesis
    unfolding p1 p2 p3 using m by (simp add: demo_console_def demo_world_def)
qed

text \<open>
  C2, amended. From an empty buffer of capacity \<open>n\<close>, feeding exactly \<open>n - 1\<close> plain
  bytes (that is \<open>n - 2\<close> of them followed by one more) triggers the recovery on the
  last of them: every byte is echoed, the notice is written, the cursor is back at the
  start, and nothing is dispatched: the command table and the world apart from the
  serial line are as before.
\<close>

theorem overflow_on_last_free_slot:
  assumes "msg_ptr s = 0" and "rx (io s) = bs" and "list_all plain bs"
    and "bs \<noteq> []" and "length bs = MAX_MSG_SIZE s - 1"
  shows "poll s =
      Some (Inr (s\<lparr>io := (io s)\<lparr>rx := [],
                       tx := tx (io s) @ map (Pair Cmd_ser) (bs @ too_long_notice @ CRLF)\<rparr>,
                   msg := bs @ drop (length bs) (msg s),
                   msg_ptr := 0\<rparr>))"
proof -
  have n: "length bs + 1 = length (msg s)"
    using assms(4,5) by (cases bs) (auto simp: MAX_MSG_SIZE_def)
  have "poll s =
      poll (s\<lparr>io := (io s)\<lparr>rx := [],
                  tx := tx (io s) @ map (Pair Cmd_ser) (bs @ too_long_notice @ CRLF)\<rparr>,
               msg := bs @ drop (length bs) (msg s),
               msg_ptr := 0\<rparr>)"
    using assms(1) _ assms(3,4) n by (rule poll_fill_overflow) (simp add: assms(2))
  then show ?thesis by (simp add: poll_done)
qed

theorem overflow_on_last_free_slot_witness:
  "poll (demo_console 4 [] ''abc'') =
     Some (Inr \<lparr>msg = ''abc'' @ [NUL], msg_ptr = 0, cmd_tbl_list = [], cmd_tbl = [],
                io = demo_world\<lparr>tx := map (Pair Cmd_ser) (''abc'' @ too_long_notice @ CRLF)\<rparr>\<rparr>)"
  using overflow_on_last_free_slot [of "demo_console 4 [] ''abc''" "''abc''"]
  by (simp add: demo_console_def demo_world_def plain_def MAX_MSG_SIZE_def numeral_eq_Suc)

subsection \<open>The tokenizer\<close>

lemma takeWhile_token:
  assumes "SPC \<notin> set t" and "NUL \<notin> set t" and "c = SPC \<or> c = NUL"
  shows "takeWhile (\<lambda>c. c \<noteq> SPC \<and> c \<noteq> NUL) (t @ c # rest) = t"
  using assms by (induction t) auto

lemma strtok_at_end:
  "strtok_at (pre @ NUL # rest) (length pre) = Inr (None, pre @ NUL # rest, length pre)"
  by (simp add: strtok_at_def)

lemma strtok_at_last:
  assumes "token t"
  shows "strtok_at (pre @ t @ NUL # rest) (length pre) =
           Inr (Some t, pre @ t @ NUL # rest, length pre + length t)"
proof -
  obtain x xs where t: "t = x # xs" "x \<noteq> SPC" "x \<noteq> NUL"
    using assms by (cases t) (auto simp: token_def)
  have tw: "takeWhile (\<lambda>c. c \<noteq> SPC \<and> c \<noteq> NUL) (t @ NUL # rest) = t"
    using assms by (intro takeWhile_token) (auto simp: token_def)
  have n: "(pre @ t @ NUL # rest) ! (length pre + length t) = NUL"
    by (simp add: nth_append)
  show ?thesis
    unfolding strtok_at_def using t tw n by (simp add: nth_append)
qed

lemma strtok_at_token:
  assumes "token t"
  shows "strtok_at (pre @ t @ SPC # rest) (length pre) =
           Inr (Some t, pre @ t @ NUL # rest, length pre + length t + 1)"
proof -
  obtain x xs where t: "t = x # xs" "x \<noteq> SPC" "x \<noteq> NUL"
    using assms by (cases t) (auto simp: token_def)
  have tw: "takeWhile (\<lambda>c. c \<noteq> SPC \<and> c \<noteq> NUL) (t @ SPC # rest) = t"
    using assms by (intro takeWhile_token) (auto simp: token_def)
  have n: "(pre @ t @ SPC # rest) ! (length pre + length t) = SPC"
    by (simp add: nth_append)
  have u: "(pre @ t @ SPC # rest)[length pre + length t := NUL] = pre @ t @ NUL # rest"
    by (simp add: list_update_append)
  show ?thesis
    unfolding strtok_at_def using t tw n u by (simp add: nth_append)
qed

lemma tok_loop_end:
  assumes "i + 1 < length argv"
  shows "tok_loop i argv (pre @ NUL # rest) (length pre) =
           Inr (i + 1, argv[i + 1 := None], pre @ NUL # rest)"
  using assms by (subst tok_loop.simps) (simp add: strtok_at_end)

lemma replicate_update_same: "(replicate n x)[i := x] = replicate n x"
  by (induction n arbitrary: i) (auto split: nat.splits)

text \<open>On an empty line the first call of \<^verbatim>\<open>strtok\<close> finds no token: slot 0 is null.\<close>

lemma tokenize_empty:
  "tokenize (NUL # rest) = Inr (1, replicate 30 None, NUL # rest)"
proof -
  have "strtok_at ([] @ NUL # rest) (length ([]::char list)) =
      Inr (None, [] @ NUL # rest, length ([]::char list))"
    by (rule strtok_at_end)
  moreover have "tok_loop 0 (replicate 30 None) ([] @ NUL # rest) (length ([]::char list)) =
      Inr (0 + 1, (replicate 30 None)[0 + 1 := None], [] @ NUL # rest)"
    by (rule tok_loop_end) simp
  ultimately show ?thesis
    by (simp add: tokenize_def replicate_update_same)
qed

lemma tokenize_one:
  assumes "token a"
  shows "tokenize (a @ NUL # rest) = Inr (1, (replicate 30 None)[0 := Some a], a @ NUL # rest)"
proof -
  have "strtok_at ([] @ a @ NUL # rest) (length ([]::char list)) =
      Inr (Some a, [] @ a @ NUL # rest, length ([]::char list) + length a)"
    using assms by (rule strtok_at_last)
  moreover have "tok_loop 0 ((replicate 30 None)[0 := Some a]) (a @ NUL # rest) (length a) =
      Inr (0 + 1, ((replicate 30 None)[0 := Some a])[0 + 1 := None], a @ NUL # rest)"
    by (rule tok_loop_end) simp
  ultimately show ?thesis
    by (simp add: tokenize_def list_update_same_conv)
qed

lemma tokenize_two:
  assumes "token a" and "token b"
  shows "tokenize (a @ SPC # b @ NUL # rest) =
      Inr (2, (replicate 30 None)[0 := Some a, 1 := Some b], a @ NUL # b @ NUL # rest)"
proof -
  have 1: "strtok_at ([] @ a @ SPC # b @ NUL # rest) (length ([]::char list)) =
      Inr (Some a, [] @ a @ NUL # b @ NUL # rest, length ([]::char list) + length a + 1)"
    using assms(1) by (rule strtok_at_token)
  have 2: "strtok_at ((a @ [NUL]) @ b @ NUL # rest) (length (a @ [NUL])) =
      Inr (Some b, (a @ [NUL]) @ b @ NUL # rest, length (a @ [NUL]) + length b)"
    using assms(2) by (rule strtok_at_last)
  have 3: "tok_loop 1 ((replicate 30 None)[0 := Some a, 1 := Some b])
             ((a @ NUL # b) @ NUL # rest) (length (a @ NUL # b)) =
      Inr (1 + 1, ((replicate 30 None)[0 := Some a, 1 := Some b])[1 + 1 := None],
           (a @ NUL # b) @ NUL # rest)"
    by (rule tok_loop_end) simp
  have 4: "tok_loop 0 ((replicate 30 None)[0 := Some a]) (a @ NUL # b @ NUL # rest) (length a + 1) =
      tok_loop 1 ((replicate 30 None)[0 := Some a, 1 := Some b])
        (a @ NUL # b @ NUL # rest) (length a + 1 + length b)"
    using 2 by (subst tok_loop.simps) simp
  show ?thesis
    using 1 3 4 by (simp add: tokenize_def list_update_same_conv)
qed

text \<open>
  How far the tokenizer gets on a short line. A call of \<^verbatim>\<open>strtok\<close> that starts at or
  before a zero byte stays at or before it, and a token that is followed by another
  one takes at least two bytes. So a line whose terminator is at index 58 or below has
  at most 29 tokens, and the loop ends with the counter at 29 or below.
\<close>

lemma takeWhile_stops:
  assumes "j < length xs" and "\<not> P (xs ! j)"
  shows "length (takeWhile P xs) \<le> j"
proof (rule ccontr)
  assume "\<not> length (takeWhile P xs) \<le> j"
  then have j: "j < length (takeWhile P xs)" by simp
  then have "takeWhile P xs ! j = xs ! j" by (rule takeWhile_nth)
  moreover have "takeWhile P xs ! j \<in> set (takeWhile P xs)" using j by simp
  ultimately show False using assms(2) by (auto dest: set_takeWhileD)
qed

lemma strtok_at_bounded:
  assumes "p \<le> k" and "k < length buf" and "buf ! k = NUL"
  shows "(\<exists>q. strtok_at buf p = Inr (None, buf, q) \<and> p \<le> q \<and> q \<le> k \<and> buf ! q = NUL)
       \<or> (\<exists>t q. strtok_at buf p = Inr (Some t, buf, q) \<and> p + 1 \<le> q \<and> q \<le> k \<and> buf ! q = NUL)
       \<or> (\<exists>t e. strtok_at buf p = Inr (Some t, buf[e := NUL], e + 1) \<and> p + 1 \<le> e \<and> e < k)"
proof -
  define sp where "sp = takeWhile (\<lambda>c. c = SPC) (drop p buf)"
  define s where "s = p + length sp"
  have "(drop p buf) ! (k - p) = NUL" using assms by simp
  then have "length sp \<le> k - p"
    unfolding sp_def using assms by (intro takeWhile_stops) auto
  then have sk: "s \<le> k" and ps: "p \<le> s" using assms by (auto simp: s_def)
  then have sl: "s < length buf" using assms by simp
  have "length sp < length (drop p buf)" using sl by (simp add: s_def)
  then have "(drop p buf) ! length sp \<noteq> SPC"
    unfolding sp_def by (rule nth_length_takeWhile)
  then have nsp: "buf ! s \<noteq> SPC" using sl by (simp add: s_def)
  show ?thesis
  proof (cases "buf ! s = NUL")
    case True
    then have "strtok_at buf p = Inr (None, buf, s)"
      using sl by (simp add: strtok_at_def s_def sp_def Let_def)
    then show ?thesis using True sk ps by blast
  next
    case False
    define tok where "tok = takeWhile (\<lambda>c. c \<noteq> SPC \<and> c \<noteq> NUL) (drop s buf)"
    define e where "e = s + length tok"
    have "(drop s buf) ! (k - s) = NUL" using assms sk by simp
    then have "length tok \<le> k - s"
      unfolding tok_def using assms sk by (intro takeWhile_stops) auto
    then have ek: "e \<le> k" using sk by (simp add: e_def)
    then have el: "e < length buf" using assms by simp
    have "drop s buf = buf ! s # drop (Suc s) buf"
      using sl by (simp add: Cons_nth_drop_Suc)
    then have "tok \<noteq> []" using False nsp by (simp add: tok_def)
    then have se: "p + 1 \<le> e" using ps by (cases tok) (auto simp: e_def)
    show ?thesis
    proof (cases "buf ! e = NUL")
      case True
      then have "strtok_at buf p = Inr (Some tok, buf, e)"
        using sl el False
        by (simp add: strtok_at_def s_def sp_def tok_def e_def Let_def)
      then show ?thesis using True ek se by blast
    next
      case ne: False
      then have "strtok_at buf p = Inr (Some tok, buf[e := NUL], e + 1)"
        using sl el False
        by (simp add: strtok_at_def s_def sp_def tok_def e_def Let_def)
      moreover have "e < k" using ne ek assms(3) by (cases "e = k") auto
      ultimately show ?thesis using se by blast
    qed
  qed
qed

lemma tok_loop_bounded:
  assumes "length argv = 30" and "k \<le> 58" and "p \<le> k" and "k < length buf"
    and "buf ! k = NUL" and "(buf ! p = NUL \<and> i < 29) \<or> 2 * i + 2 \<le> p"
  shows "\<exists>n argv' buf'. tok_loop i argv buf p = Inr (n, argv', buf') \<and> n \<le> 29"
  using assms
proof (induction "30 - i" arbitrary: i argv buf p)
  case 0
  then show ?case by auto
next
  case (Suc d)
  have i: "i < 29" using Suc.prems by auto
  consider
    (none) q where "strtok_at buf p = Inr (None, buf, q)"
  | (last) t q where "strtok_at buf p = Inr (Some t, buf, q)" "p + 1 \<le> q" "q \<le> k" "buf ! q = NUL"
      "2 * i + 2 \<le> p"
  | (more) t e where "strtok_at buf p = Inr (Some t, buf[e := NUL], e + 1)" "p + 1 \<le> e" "e < k"
      "2 * i + 2 \<le> p"
  proof (cases "buf ! p = NUL")
    case True
    have "p < length buf" using Suc.prems by simp
    then have "drop p buf = NUL # drop (Suc p) buf"
      using True by (simp add: Cons_nth_drop_Suc [symmetric])
    then have "strtok_at buf p = Inr (None, buf, p)"
      using True \<open>p < length buf\<close> by (simp add: strtok_at_def)
    then show ?thesis by (rule none)
  next
    case False
    then have "2 * i + 2 \<le> p" using Suc.prems by auto
    then show ?thesis
      using strtok_at_bounded [OF Suc.prems(3,4,5)] none last more by blast
  qed
  then show ?case
  proof cases
    case none
    then show ?thesis
      using i Suc.prems(1) by (subst tok_loop.simps) simp
  next
    case last
    have "\<exists>n argv' buf'. tok_loop (i + 1) (argv[i + 1 := Some t]) buf q = Inr (n, argv', buf') \<and> n \<le> 29"
      using Suc.hyps(2) Suc.prems last by (intro Suc.hyps(1)) auto
    then show ?thesis
      using i Suc.prems(1) last(1) by (subst tok_loop.simps) simp
  next
    case more
    have "\<exists>n argv' buf'. tok_loop (i + 1) (argv[i + 1 := Some t]) (buf[e := NUL]) (e + 1) =
        Inr (n, argv', buf') \<and> n \<le> 29"
      using Suc.hyps(2) Suc.prems more by (intro Suc.hyps(1)) auto
    then show ?thesis
      using i Suc.prems(1) more(1) by (subst tok_loop.simps) simp
  qed
qed

lemma tokenize_short_line:
  assumes "k \<le> 58" and "k < length line" and "line ! k = NUL"
  shows "\<exists>n argv buf. tokenize line = Inr (n, argv, buf) \<and> n \<le> 29"
proof -
  let ?argv = "\<lambda>t::string option. (replicate 30 None)[0 := t]"
  have b: "\<exists>n argv' buf'. tok_loop 0 (?argv t) buf p = Inr (n, argv', buf') \<and> n \<le> 29"
    if "p \<le> k" "k < length buf" "buf ! k = NUL" "buf ! p = NUL \<or> 2 \<le> p" for t buf p
    using that assms(1) by (intro tok_loop_bounded [where k = k]) auto
  from strtok_at_bounded [of 0 k line, OF _ assms(2,3)]
  consider
    (none) q where "strtok_at line 0 = Inr (None, line, q)" "q \<le> k" "line ! q = NUL"
  | (last) t q where "strtok_at line 0 = Inr (Some t, line, q)" "q \<le> k" "line ! q = NUL"
  | (more) t e where "strtok_at line 0 = Inr (Some t, line[e := NUL], e + 1)" "1 \<le> e" "e < k"
    by auto
  then show ?thesis
  proof cases
    case none
    then show ?thesis using b [of q line None] assms by (simp add: tokenize_def)
  next
    case last
    then show ?thesis using b [of q line "Some t"] assms by (simp add: tokenize_def)
  next
    case more
    then show ?thesis
      using b [of "e + 1" "line[e := NUL]" "Some t"] assms by (simp add: tokenize_def)
  qed
qed

lemma console_line_fits_argv:
  assumes "MAX_MSG_SIZE s \<le> 60" and "msg_ptr s + 1 < length (msg s)"
  shows "\<exists>n argv buf. tokenize ((msg s)[msg_ptr s := NUL]) = Inr (n, argv, buf) \<and> n \<le> 29"
  using assms by (intro tokenize_short_line [where k = "msg_ptr s"]) (auto simp: MAX_MSG_SIZE_def)

text \<open>
  The tokenizer and the command handlers leave the length of the buffer and the cursor
  alone, and the input state machine keeps the cursor below the last index of the
  buffer.
\<close>

lemma strtok_at_length:
  assumes "strtok_at buf p = Inr (t, buf', p')"
  shows "length buf' = length buf"
  using assms by (auto simp: strtok_at_def Let_def split: if_splits)

lemma tok_loop_length:
  "tok_loop i argv buf p = Inr (n, argv', buf') \<Longrightarrow> length buf' = length buf"
proof (induction i argv buf p rule: tok_loop.induct)
  case (1 i argv buf p)
  show ?case
  proof (cases "strtok_at buf p")
    case (Inl e)
    with "1.prems" show ?thesis by (subst (asm) tok_loop.simps) simp
  next
    case (Inr r)
    obtain t b q where r: "r = (t, b, q)" by (cases r) auto
    have lb: "length b = length buf"
      using Inr r by (auto dest: strtok_at_length)
    show ?thesis
    proof (cases "i + 1 < 30 \<and> t \<noteq> None \<and> \<not> length argv \<le> i + 1")
      case True
      then have "tok_loop (i + 1) (argv[i + 1 := t]) b q = Inr (n, argv', buf')"
        using "1.prems" Inr r by (subst (asm) tok_loop.simps) (simp add: Let_def)
      then have "length buf' = length b"
        using True Inr r by (intro "1.IH") auto
      with lb show ?thesis by simp
    next
      case False
      then have "buf' = b"
        using "1.prems" Inr r
        by (subst (asm) tok_loop.simps) (auto simp: Let_def split: if_splits)
      with lb show ?thesis by simp
    qed
  qed
qed

lemma parse_frame:
  assumes "parse line s = Inr (buf, s')"
  shows "length buf = length line \<and> msg s' = msg s \<and> msg_ptr s' = msg_ptr s
       \<and> cmd_tbl s' = cmd_tbl s \<and> cmd_tbl_list s' = cmd_tbl_list s"
proof -
  obtain argc argv where t: "tokenize line = Inr (argc, argv, buf)"
    using assms by (auto simp: parse_def split: sum.splits)
  have "length buf = length line"
    using t
    by (auto simp: tokenize_def split: sum.splits dest!: tok_loop_length strtok_at_length)
  then show ?thesis
    using assms by (auto simp: parse_def split: sum.splits)
qed

lemma handler_cursor_invariant:
  assumes "handler s = Inr s'" and "msg_ptr s + 1 < length (msg s)"
  shows "length (msg s') = length (msg s) \<and> msg_ptr s' + 1 < length (msg s')"
proof -
  obtain c w where r: "ser_read (io s) = (c, w)" by (cases "ser_read (io s)") auto
  show ?thesis
  proof (cases "c = CR")
    case True
    let ?s1 = "s\<lparr>msg := (msg s)[msg_ptr s := NUL], io := ser_print Cmd_ser CRLF w\<rparr>"
    obtain buf s2 where p: "parse ((msg s)[msg_ptr s := NUL]) ?s1 = Inr (buf, s2)"
      and s': "s' = s2\<lparr>msg := buf, msg_ptr := 0\<rparr>"
      using assms r True by (auto simp: handler_def Let_def split: sum.splits)
    have "length buf = length (msg s)"
      using parse_frame [OF p] by simp
    then show ?thesis using s' assms(2) by simp
  next
    case False
    then show ?thesis
      using assms r
      by (auto simp: handler_def Let_def MAX_MSG_SIZE_def split: if_splits)
  qed
qed


text \<open>A line of 29 tokens fills the slots 0 to 28, and slot 29 takes the null pointer.\<close>

lemma twenty_nine_tokens_fit:
  "tokenize (concat (replicate 28 ''a '') @ ''a'' @ [NUL]) =
     Inr (29, replicate 29 (Some ''a'') @ [None], concat (replicate 29 (''a'' @ [NUL])))"
  by code_simp

text \<open>
  C4. The bound of 29 on the index of the slots the tokenizing loop stores into does
  not hold on a line of 30 tokens. The loop stores before it tests \<^verbatim>\<open>i < 30\<close>: with
  the slots 0 to 29 filled by tokens it increments the counter to 30 and stores the
  result of the next \<^verbatim>\<open>strtok\<close> in slot 30, which the array \<^verbatim>\<open>char *argv[30]\<close> does
  not have. The line here is thirty times the token \<^verbatim>\<open>a\<close>, separated by single
  spaces.
\<close>

theorem thirty_tokens_store_in_slot_30:
  "tokenize (concat (replicate 29 ''a '') @ ''a'' @ NUL # rest) = Inl (OutOfBounds 30)
   \<and> parse (concat (replicate 29 ''a '') @ ''a'' @ NUL # rest) s = Inl (OutOfBounds 30)"
proof -
  have "tokenize (concat (replicate 29 ''a '') @ ''a'' @ NUL # rest) = Inl (OutOfBounds 30)"
    by (simp add: tokenize_def tok_loop.simps strtok_at_def numeral_eq_Suc)
  then show ?thesis by (simp add: parse_def)
qed

text \<open>
  The same line typed on the serial line of a console whose buffer has 64 bytes, and
  completed with a carriage return.
\<close>

lemma handler_return_parse_error:
  assumes "rx (io s) = CR # rest" and "msg_ptr s < length (msg s)"
    and "\<And>s'. parse ((msg s)[msg_ptr s := NUL]) s' = Inl e"
  shows "handler s = Inl e"
  using assms by (simp add: handler_def ser_read_def Let_def)

lemma thirty_tokens_from_serial_line:
  "handler (demo_console 64 (concat (replicate 29 ''a '') @ ''a'') [CR]) = Inl (OutOfBounds 30)"
proof -
  let ?line = "concat (replicate 29 ''a '') @ ''a''"
  let ?s = "demo_console 64 ?line [CR]"
  have l: "length (concat (replicate 29 ''a '')) = 58"
    by code_simp
  have m: "msg ?s = ?line @ replicate 5 NUL" and p: "msg_ptr ?s = 59"
    and r: "rx (io ?s) = CR # []"
    by (simp_all add: demo_console_def l)
  have u: "(msg ?s)[msg_ptr ?s := NUL] = ?line @ NUL # replicate 4 NUL"
    unfolding m p using l by (simp add: list_update_append numeral_eq_Suc)
  have t: "tokenize (?line @ NUL # replicate 4 NUL) = Inl (OutOfBounds 30)"
    by code_simp
  show ?thesis
    using r
  proof (rule handler_return_parse_error)
    show "msg_ptr ?s < length (msg ?s)"
      unfolding m p using l by simp
    show "parse ((msg ?s)[msg_ptr ?s := NUL]) s' = Inl (OutOfBounds 30)" for s'
      unfolding u using t by (simp add: parse_def)
  qed
qed

subsection \<open>Dispatch\<close>

lemma arg_Some:
  assumes "i < length argv" and "argv ! i = Some a"
  shows "arg argv i = Inr a"
  using assms by (simp add: arg_def slot_def deref_def bind_err_def)

lemma arg_None:
  assumes "i < length argv" and "argv ! i = None"
  shows "arg argv i = Inl NullPointer"
  using assms by (simp add: arg_def slot_def deref_def bind_err_def)

lemma scan_tbl_error:
  assumes "arg argv 0 = Inl x"
  shows "scan_tbl tbl argc argv w = Inl x"
  using assms by (cases tbl) (auto simp: bind_err_def)

lemma scan_tbl_first_match:
  assumes "arg argv 0 = Inr a0" and "a0 \<notin> cmd ` set pre" and "cmd e = a0"
  shows "scan_tbl (pre @ e # post) argc argv w =
           (case func e argc argv w of Inl x \<Rightarrow> Inl x | Inr w' \<Rightarrow> Inr (display_prompt w'))"
  using assms by (induction pre) (auto simp: bind_err_def)

lemma scan_tbl_no_match:
  assumes "arg argv 0 = Inr a0" and "a0 \<notin> cmd ` set tbl"
  shows "scan_tbl tbl argc argv w =
           Inr (display_prompt (if 0 < length a0 then unrecognized a0 w else w))"
  using assms by (induction tbl) (auto simp: bind_err_def)

lemma parse_empty_line: "parse (NUL # rest) s = Inl NullPointer"
  by (simp add: parse_def tokenize_empty scan_tbl_error arg_None)

lemma parse_dispatch:
  assumes "tokenize line = Inr (argc, argv, buf)" and "arg argv 0 = Inr a"
    and "cmd_tbl s = pre @ e # post" and "a \<notin> cmd ` set pre" and "cmd e = a"
  shows "parse line s =
     (case func e (int argc) argv (io s) of
        Inl x \<Rightarrow> Inl x
      | Inr w \<Rightarrow> Inr (buf, s\<lparr>io := display_prompt w\<rparr>))"
proof -
  have "scan_tbl (pre @ e # post) (int argc) argv (io s) =
      (case func e (int argc) argv (io s) of
         Inl x \<Rightarrow> Inl x
       | Inr w' \<Rightarrow> Inr (display_prompt w'))"
    using assms by (intro scan_tbl_first_match) auto
  then show ?thesis
    using assms by (simp add: parse_def split: sum.splits)
qed

lemma display_prompt_tx:
  "display_prompt w = w\<lparr>tx := tx w @ map (Pair Cmd_ser) (CRLF @ cmd_prompt)\<rparr>"
  by (simp add: display_prompt_def ser_println_def ser_print_def)

lemma add_fields:
  "cmd_tbl (add name f s) =
     \<lparr>cmd = takeWhile (\<lambda>c. c \<noteq> NUL) name, func = f\<rparr> # cmd_tbl_list s"
  "cmd_tbl_list (add name f s) =
     \<lparr>cmd = takeWhile (\<lambda>c. c \<noteq> NUL) name, func = f\<rparr> # cmd_tbl_list s"
  "io (add name f s) = io s"
  "msg (add name f s) = msg s"
  "msg_ptr (add name f s) = msg_ptr s"
  by (simp_all add: add_def Let_def)

lemma takeWhile_no_NUL: "NUL \<notin> set n \<Longrightarrow> takeWhile (\<lambda>c. c \<noteq> NUL) n = n"
  by (induction n) auto

lemma RegisterCommands_tbl:
  "cmd_tbl (RegisterCommands pf oc s) =
     [\<lparr>cmd = ''off'', func = CmdOff pf\<rparr>,
      \<lparr>cmd = ''default'', func = CmdDefault\<rparr>,
      \<lparr>cmd = ''bufsize'', func = CmdBufsize oc\<rparr>,
      \<lparr>cmd = ''mode'', func = CmdMode oc\<rparr>,
      \<lparr>cmd = ''freq'', func = CmdFreq oc\<rparr>,
      \<lparr>cmd = ''ph3'', func = CmdPhaseHD3 oc\<rparr>,
      \<lparr>cmd = ''ampl3'', func = CmdAmplHD3 oc\<rparr>]
     @ \<lparr>cmd = ''ampl'', func = CmdAmpl pf\<rparr> #
     [\<lparr>cmd = ''dither'', func = CmdDither oc\<rparr>,
      \<lparr>cmd = ''call'', func = CmdCall pf\<rparr>,
      \<lparr>cmd = ''fox'', func = CmdFox pf\<rparr>,
      \<lparr>cmd = ''rate'', func = CmdMorseRate pf\<rparr>,
      \<lparr>cmd = ''keydown'', func = CmdKeyDown oc\<rparr>,
      \<lparr>cmd = ''stat'', func = CmdPrintStatus pf\<rparr>,
      \<lparr>cmd = ''help'', func = CmdPrintHelp pf\<rparr>,
      \<lparr>cmd = ''?'', func = CmdPrintHelp pf\<rparr>] @ cmd_tbl_list s"
  by (simp add: RegisterCommands_def add_def Let_def)

lemma RegisterCommands_frame:
  "io (RegisterCommands pf oc s) = io s"
  "msg (RegisterCommands pf oc s) = msg s"
  "msg_ptr (RegisterCommands pf oc s) = msg_ptr s"
  by (simp_all add: RegisterCommands_def add_def Let_def)

text \<open>
  C3. The empty line does not yield an empty string as token 0. When return is
  pressed with nothing entered, \<^verbatim>\<open>strtok\<close> finds no token and returns the null
  pointer, so slot 0 of the argument vector is null; \<^verbatim>\<open>parse\<close> hands it to
  \<^verbatim>\<open>strcmp\<close> (or, with an empty table, to \<^verbatim>\<open>strlen\<close>), which dereference it. The
  dispatcher does not get as far as the prompt.
\<close>

theorem empty_line_gives_null_command:
  assumes "rx (io s) = CR # rest" and "msg_ptr s = 0" and "msg s \<noteq> []"
  shows "tokenize ((msg s)[0 := NUL]) = Inr (1, replicate 30 None, (msg s)[0 := NUL])
       \<and> handler s = Inl NullPointer"
proof -
  obtain x xs where m: "msg s = x # xs"
    using assms(3) by (cases "msg s") auto
  then have u: "(msg s)[0 := NUL] = NUL # xs" by simp
  have "handler s = Inl NullPointer"
    using assms m by (simp add: handler_def ser_read_def parse_empty_line)
  then show ?thesis using u by (simp add: tokenize_empty)
qed

theorem empty_line_gives_null_command_witness:
  "tokenize (replicate 60 NUL) = Inr (1, replicate 30 None, replicate 60 NUL)
   \<and> handler (RegisterCommands demo_platform demo_others (demo_console 60 [] [CR])) =
       Inl NullPointer"
proof -
  let ?s = "RegisterCommands demo_platform demo_others (demo_console 60 [] [CR])"
  have "msg ?s = replicate 60 NUL" and "msg_ptr ?s = 0" and "rx (io ?s) = CR # []"
    by (simp_all add: RegisterCommands_frame demo_console_def demo_world_def)
  moreover have "(replicate 60 NUL)[0 := NUL] = replicate 60 NUL"
    by (rule replicate_update_same)
  ultimately show ?thesis
    using empty_line_gives_null_command [of ?s "[]"] by simp
qed

text \<open>
  C5. \<^verbatim>\<open>add\<close> links the new entry in front of the table, so the scan visits the entry
  registered last first. The scan invokes the handler of the first entry whose name
  equals token 0, once, and then writes the prompt. After registering \<open>A\<close> and then
  \<open>B\<close> under distinct names, the line \<open>A\<close> runs the handler of \<open>A\<close> on the world and
  writes the prompt; the handler of \<open>B\<close> takes no part in the result.
\<close>

theorem dispatch_first_match_most_recent_first:
  assumes "token A" and "NUL \<notin> set B" and "A \<noteq> B"
    and "tokenize line = Inr (argc, argv, buf)" and "arg argv 0 = Inr a"
    and "cmd_tbl s' = pre @ e # post" and "a \<notin> cmd ` set pre" and "cmd e = a"
  shows "cmd_tbl (add B fb (add A fa s)) =
           \<lparr>cmd = B, func = fb\<rparr> # \<lparr>cmd = A, func = fa\<rparr> # cmd_tbl_list s
       \<and> parse line s' =
           (case func e (int argc) argv (io s') of
              Inl x \<Rightarrow> Inl x
            | Inr w \<Rightarrow> Inr (buf, s'\<lparr>io := display_prompt w\<rparr>))
       \<and> parse (A @ NUL # rest) (add B fb (add A fa s)) =
           (case fa 1 ((replicate 30 None)[0 := Some A]) (io s) of
              Inl x \<Rightarrow> Inl x
            | Inr w \<Rightarrow> Inr (A @ NUL # rest, (add B fb (add A fa s))\<lparr>io := display_prompt w\<rparr>))"
proof -
  have nA: "takeWhile (\<lambda>c. c \<noteq> NUL) A = A" and nB: "takeWhile (\<lambda>c. c \<noteq> NUL) B = B"
    using assms by (auto simp: token_def intro: takeWhile_no_NUL)
  have t: "cmd_tbl (add B fb (add A fa s)) =
      [\<lparr>cmd = B, func = fb\<rparr>] @ \<lparr>cmd = A, func = fa\<rparr> # cmd_tbl_list s"
    by (simp add: add_fields nA nB)
  have k: "tokenize (A @ NUL # rest) = Inr (1, (replicate 30 None)[0 := Some A], A @ NUL # rest)"
    using assms(1) by (rule tokenize_one)
  have "parse (A @ NUL # rest) (add B fb (add A fa s)) =
     (case func \<lparr>cmd = A, func = fa\<rparr> (int 1) ((replicate 30 None)[0 := Some A])
             (io (add B fb (add A fa s))) of
        Inl x \<Rightarrow> Inl x
      | Inr w \<Rightarrow> Inr (A @ NUL # rest, (add B fb (add A fa s))\<lparr>io := display_prompt w\<rparr>))"
    using k _ t by (rule parse_dispatch) (use assms in \<open>auto simp: arg_Some\<close>)
  moreover have "parse line s' =
           (case func e (int argc) argv (io s') of
              Inl x \<Rightarrow> Inl x
            | Inr w \<Rightarrow> Inr (buf, s'\<lparr>io := display_prompt w\<rparr>))"
    using assms(4-8) by (rule parse_dispatch)
  ultimately show ?thesis using t by (simp add: add_fields)
qed

theorem dispatch_first_match_most_recent_first_witness:
  "cmd_tbl (add ''B'' (mark ''b'') (add ''A'' (mark ''a'') (demo_console 60 [] []))) =
     [\<lparr>cmd = ''B'', func = mark ''b''\<rparr>, \<lparr>cmd = ''A'', func = mark ''a''\<rparr>]
   \<and> parse (''A'' @ [NUL]) (add ''B'' (mark ''b'') (add ''A'' (mark ''a'') (demo_console 60 [] []))) =
     Inr (''A'' @ [NUL],
          (add ''B'' (mark ''b'') (add ''A'' (mark ''a'') (demo_console 60 [] [])))
            \<lparr>io := demo_world\<lparr>tx := map (Pair Serial) ''a'' @ map (Pair Cmd_ser) (CRLF @ cmd_prompt)\<rparr>\<rparr>)"
proof -
  let ?s = "demo_console 60 [] []"
  let ?s' = "add ''B'' (mark ''b'') (add ''A'' (mark ''a'') ?s)"
  have k: "tokenize (''A'' @ NUL # []) =
      Inr (1, (replicate 30 None)[0 := Some ''A''], ''A'' @ NUL # [])"
    by (rule tokenize_one) (simp add: token_def)
  have t: "cmd_tbl ?s' = [\<lparr>cmd = ''B'', func = mark ''b''\<rparr>] @ \<lparr>cmd = ''A'', func = mark ''a''\<rparr> # []"
    by (simp add: add_fields demo_console_def)
  show ?thesis
    using dispatch_first_match_most_recent_first
      [of "''A''" "''B''" "''A'' @ NUL # []" 1 "(replicate 30 None)[0 := Some ''A'']"
          "''A'' @ NUL # []" "''A''" ?s' "[\<lparr>cmd = ''B'', func = mark ''b''\<rparr>]"
          "\<lparr>cmd = ''A'', func = mark ''a''\<rparr>" "[]" "mark ''b''" "mark ''a''" ?s "[]", OF _ _ _ k _ t]
    by (simp add: token_def add_fields demo_console_def demo_world_def mark_def
        ser_print_def display_prompt_tx arg_Some)
qed

subsection \<open>The command handlers\<close>

text \<open>
  \<^verbatim>\<open>Str2Num\<close> yields the value of \<^verbatim>\<open>strtol\<close> when it fits 32 bits, and wraps a value
  that does not.
\<close>

lemma Str2Num_in_range:
  assumes "- 2147483648 \<le> strtol pf str 10" and "strtol pf str 10 < 2147483648"
  shows "Str2Num pf str 10 = strtol pf str 10"
  using assms by (simp add: Str2Num_def to_int32_def)

lemma Str2Num_narrows:
  assumes "strtol pf str 10 = 4294967301"
  shows "Str2Num pf str 10 = 5"
  using assms by (simp add: Str2Num_def to_int32_def)

lemma PrintNumArgError_message:
  assumes "argv \<noteq> []" and "argv ! 0 = Some name"
  shows "PrintNumArgError argc argv n w =
      Inr (w\<lparr>tx := tx w @ map (Pair Serial) (arity_message name (n - 1) (argc - 1) @ CRLF)\<rparr>)"
  using assms
  by (simp add: PrintNumArgError_def bind_err_def slot_def ser_print_ptr_def ser_print_def
      ser_println_def ser_write_def arity_message_def Let_def)

text \<open>
  The handlers that compare the argument count with a fixed value are those of
  \<^verbatim>\<open>?\<close>, \<^verbatim>\<open>help\<close> and \<^verbatim>\<open>stat\<close> (one token) and of \<^verbatim>\<open>rate\<close> and \<^verbatim>\<open>off\<close> (two tokens).
  Called with any other argument count, each of them writes the standard message,
  which names the command and gives the required and the received number of
  arguments, and returns: the world is the one it was given with that one line added
  to the output.
\<close>

lemma fixed_arity_mismatch_reported:
  assumes "argv \<noteq> []" and "argv ! 0 = Some name"
  shows "(argc \<noteq> 1 \<longrightarrow>
            CmdPrintHelp pf argc argv w =
              Inr (w\<lparr>tx := tx w @ map (Pair Serial) (arity_message name 0 (argc - 1) @ CRLF)\<rparr>)
          \<and> CmdPrintStatus pf argc argv w =
              Inr (w\<lparr>tx := tx w @ map (Pair Serial) (arity_message name 0 (argc - 1) @ CRLF)\<rparr>))
       \<and> (argc \<noteq> 2 \<longrightarrow>
            CmdMorseRate pf argc argv w =
              Inr (w\<lparr>tx := tx w @ map (Pair Serial) (arity_message name 1 (argc - 1) @ CRLF)\<rparr>)
          \<and> CmdOff pf argc argv w =
              Inr (w\<lparr>tx := tx w @ map (Pair Serial) (arity_message name 1 (argc - 1) @ CRLF)\<rparr>))"
  using PrintNumArgError_message [OF assms, of argc 1 w]
        PrintNumArgError_message [OF assms, of argc 2 w]
  by (simp add: CmdPrintHelp_def CmdPrintStatus_def CmdMorseRate_def CmdOff_def)

lemma fixed_arity_mismatch_reported_example:
  "CmdPrintHelp demo_platform 3 [Some ''help'', Some ''a'', Some ''b''] demo_world =
     Inr (demo_world\<lparr>tx := map (Pair Serial)
            (''#Error: help requires 0 arguments. Received 2.'' @ CRLF)\<rparr>)
   \<and> CmdPrintStatus demo_platform 3 [Some ''help'', Some ''a'', Some ''b''] demo_world =
     Inr (demo_world\<lparr>tx := map (Pair Serial)
            (''#Error: help requires 0 arguments. Received 2.'' @ CRLF)\<rparr>)
   \<and> CmdMorseRate demo_platform 3 [Some ''help'', Some ''a'', Some ''b''] demo_world =
     Inr (demo_world\<lparr>tx := map (Pair Serial)
            (''#Error: help requires 1 argument. Received 2.'' @ CRLF)\<rparr>)
   \<and> CmdOff demo_platform 3 [Some ''help'', Some ''a'', Some ''b''] demo_world =
     Inr (demo_world\<lparr>tx := map (Pair Serial)
            (''#Error: help requires 1 argument. Received 2.'' @ CRLF)\<rparr>)"
  using fixed_arity_mismatch_reported
    [of "[Some ''help'', Some ''a'', Some ''b'']" "''help''" 3 demo_platform demo_world]
  by (simp add: arity_message_def print_int_def printNumber.simps demo_world_def)

text \<open>
  C8. The command \<^verbatim>\<open>default\<close> takes no argument, and its handler does not report a
  wrong argument count. Whatever the count and the arguments are, \<^verbatim>\<open>CmdDefault\<close>
  writes nothing and calls the five setters and the commit operation, where the
  handlers of the other commands with a fixed arity write the standard message and
  leave the collaborator alone.
\<close>

theorem default_ignores_argument_count:
  "CmdDefault argc argv w =
     Inr (w\<lparr>rf_synth := (rf_synth w)\<lparr>
            dither_amplitude := Finite 1,
            amplitude := Finite 1,
            frequency := Finite 3579900,
            synth_mode := 5,
            synth_max_words := max_words w,
            calls := calls (rf_synth w)
                       @ [Set_dither_amplitude (Finite 1), Set_amplitude (Finite 1),
                          Set_frequency (Finite 3579900), Set_mode 5,
                          Set_max_words (max_words w), Apply_settings]\<rparr>\<rparr>)"
  by (simp add: CmdDefault_def apply_settings_def set_max_words_def set_mode_def
      set_frequency_def set_amplitude_def set_dither_amplitude_def)

text \<open>
  The line \<^verbatim>\<open>default a b\<close>, dispatched with the commands of the sketch registered:
  the argument count is 3, no message is written before the prompt, and the
  collaborator receives the six calls.
\<close>

lemma default_with_arguments_dispatched:
  "parse (''default a b'' @ NUL # rest) (RegisterCommands pf oc (demo_console 60 [] [])) =
     Inr (''default'' @ NUL # ''a'' @ NUL # ''b'' @ NUL # rest,
          (RegisterCommands pf oc (demo_console 60 [] []))
            \<lparr>io := demo_world\<lparr>
                 rf_synth := (rf_synth demo_world)\<lparr>
                    dither_amplitude := Finite 1,
                    amplitude := Finite 1,
                    frequency := Finite 3579900,
                    synth_mode := 5,
                    synth_max_words := 2000,
                    calls := [Set_dither_amplitude (Finite 1), Set_amplitude (Finite 1),
                              Set_frequency (Finite 3579900), Set_mode 5,
                              Set_max_words 2000, Apply_settings]\<rparr>,
                 tx := map (Pair Cmd_ser) (CRLF @ cmd_prompt)\<rparr>\<rparr>)"
proof -
  let ?s = "RegisterCommands pf oc (demo_console 60 [] [])"
  let ?argv = "(replicate 30 None)[0 := Some ''default'', 1 := Some ''a'', 2 := Some ''b'']"
  have t: "tokenize (''default a b'' @ NUL # rest) =
      Inr (3, ?argv, ''default'' @ NUL # ''a'' @ NUL # ''b'' @ NUL # rest)"
    by (simp add: tokenize_def tok_loop.simps strtok_at_def numeral_eq_Suc)
  have a: "arg ?argv 0 = Inr ''default''"
    by (simp add: arg_Some)
  have c: "cmd_tbl ?s =
      [\<lparr>cmd = ''off'', func = CmdOff pf\<rparr>] @ \<lparr>cmd = ''default'', func = CmdDefault\<rparr> #
      [\<lparr>cmd = ''bufsize'', func = CmdBufsize oc\<rparr>,
       \<lparr>cmd = ''mode'', func = CmdMode oc\<rparr>,
       \<lparr>cmd = ''freq'', func = CmdFreq oc\<rparr>,
       \<lparr>cmd = ''ph3'', func = CmdPhaseHD3 oc\<rparr>,
       \<lparr>cmd = ''ampl3'', func = CmdAmplHD3 oc\<rparr>,
       \<lparr>cmd = ''ampl'', func = CmdAmpl pf\<rparr>,
       \<lparr>cmd = ''dither'', func = CmdDither oc\<rparr>,
       \<lparr>cmd = ''call'', func = CmdCall pf\<rparr>,
       \<lparr>cmd = ''fox'', func = CmdFox pf\<rparr>,
       \<lparr>cmd = ''rate'', func = CmdMorseRate pf\<rparr>,
       \<lparr>cmd = ''keydown'', func = CmdKeyDown oc\<rparr>,
       \<lparr>cmd = ''stat'', func = CmdPrintStatus pf\<rparr>,
       \<lparr>cmd = ''help'', func = CmdPrintHelp pf\<rparr>,
       \<lparr>cmd = ''?'', func = CmdPrintHelp pf\<rparr>]"
    by (simp add: RegisterCommands_tbl demo_console_def)
  have "parse (''default a b'' @ NUL # rest) ?s =
     (case func \<lparr>cmd = ''default'', func = CmdDefault\<rparr> (int 3) ?argv (io ?s) of
        Inl x \<Rightarrow> Inl x
      | Inr w \<Rightarrow> Inr (''default'' @ NUL # ''a'' @ NUL # ''b'' @ NUL # rest,
                        ?s\<lparr>io := display_prompt w\<rparr>))"
    using t a c by (rule parse_dispatch) simp_all
  then show ?thesis
    by (simp add: CmdDefault_def apply_settings_def set_max_words_def set_mode_def
        set_frequency_def set_amplitude_def set_dither_amplitude_def display_prompt_tx
        RegisterCommands_frame demo_console_def demo_world_def)
qed

lemma token_ampl: "token ''ampl''" "token ''2.5''" "token ''1.5''"
  by (simp_all add: token_def)

lemma ampl_first_in_RegisterCommands:
  "''ampl'' \<notin> cmd ` set
     [\<lparr>cmd = ''off'', func = CmdOff pf\<rparr>,
      \<lparr>cmd = ''default'', func = CmdDefault\<rparr>,
      \<lparr>cmd = ''bufsize'', func = CmdBufsize oc\<rparr>,
      \<lparr>cmd = ''mode'', func = CmdMode oc\<rparr>,
      \<lparr>cmd = ''freq'', func = CmdFreq oc\<rparr>,
      \<lparr>cmd = ''ph3'', func = CmdPhaseHD3 oc\<rparr>,
      \<lparr>cmd = ''ampl3'', func = CmdAmplHD3 oc\<rparr>]"
  by simp

text \<open>
  The command \<^verbatim>\<open>ampl\<close> with one argument, dispatched on a table in which the first
  entry named \<^verbatim>\<open>ampl\<close> is bound to \<^verbatim>\<open>CmdAmpl\<close>: the handler runs on the two tokens.
\<close>

lemma parse_ampl:
  assumes "token v"
    and "cmd_tbl s = pre @ \<lparr>cmd = ''ampl'', func = CmdAmpl pf\<rparr> # post"
    and "''ampl'' \<notin> cmd ` set pre"
  shows "parse (''ampl'' @ SPC # v @ NUL # rest) s =
     (case CmdAmpl pf 2 ((replicate 30 None)[0 := Some ''ampl'', 1 := Some v]) (io s) of
        Inl x \<Rightarrow> Inl x
      | Inr w \<Rightarrow> Inr (''ampl'' @ NUL # v @ NUL # rest, s\<lparr>io := display_prompt w\<rparr>))"
proof -
  let ?argv = "(replicate 30 None)[0 := Some ''ampl'', 1 := Some v]"
  have t: "tokenize (''ampl'' @ SPC # v @ NUL # rest) =
      Inr (2, ?argv, ''ampl'' @ NUL # v @ NUL # rest)"
    using token_ampl(1) assms(1) by (rule tokenize_two)
  have "parse (''ampl'' @ SPC # v @ NUL # rest) s =
     (case func \<lparr>cmd = ''ampl'', func = CmdAmpl pf\<rparr> (int 2) ?argv (io s) of
        Inl x \<Rightarrow> Inl x
      | Inr w \<Rightarrow> Inr (''ampl'' @ NUL # v @ NUL # rest, s\<lparr>io := display_prompt w\<rparr>))"
    using t _ assms(2,3) by (rule parse_dispatch) (simp_all add: arg_Some)
  then show ?thesis by simp
qed

lemma CmdAmpl_one_argument:
  "CmdAmpl pf 2 ((replicate 30 None)[0 := Some a0, 1 := Some v]) w =
     (if dle (Finite 0) (strtod pf v) \<and> dle (strtod pf v) (Finite 2) then
        Inr (w\<lparr>rf_synth := apply_settings (set_amplitude (strtod pf v) (rf_synth w))\<rparr>)
      else Inr (ser_println Serial ''Invalid amplitude value'' w))"
  by (simp add: CmdAmpl_def arg_def slot_def deref_def bind_err_def Str2Double_def Let_def)

text \<open>
  C6. With the commands of the sketch registered, and a conversion that reads
  \<^verbatim>\<open>2.5\<close> as the number 2.5, dispatching the line \<^verbatim>\<open>ampl 2.5\<close> leaves the collaborator
  as it was (the amplitude is unchanged and neither the setter nor the commit is
  called): the only change of the world is the output, which receives the rejection
  notice and then the prompt.
\<close>

theorem ampl_out_of_range_rejected:
  assumes "strtod pf ''2.5'' = Finite (5 / 2)"
    and "s = RegisterCommands pf oc s0"
  shows "parse (''ampl 2.5'' @ NUL # rest) s =
     Inr (''ampl'' @ NUL # ''2.5'' @ NUL # rest,
          s\<lparr>io := (io s)\<lparr>tx := tx (io s)
                 @ map (Pair Serial) (''Invalid amplitude value'' @ CRLF)
                 @ map (Pair Cmd_ser) (CRLF @ cmd_prompt)\<rparr>\<rparr>)"
proof -
  have h: "CmdAmpl pf 2 ((replicate 30 None)[0 := Some ''ampl'', 1 := Some ''2.5'']) (io s) =
      Inr (ser_println Serial ''Invalid amplitude value'' (io s))"
    unfolding CmdAmpl_one_argument using assms(1) by simp
  have "parse (''ampl'' @ SPC # ''2.5'' @ NUL # rest) s =
     (case CmdAmpl pf 2 ((replicate 30 None)[0 := Some ''ampl'', 1 := Some ''2.5'']) (io s) of
        Inl x \<Rightarrow> Inl x
      | Inr w \<Rightarrow> Inr (''ampl'' @ NUL # ''2.5'' @ NUL # rest, s\<lparr>io := display_prompt w\<rparr>))"
    using token_ampl(2) unfolding assms(2)
    by (rule parse_ampl) (rule RegisterCommands_tbl, rule ampl_first_in_RegisterCommands)
  then show ?thesis
    unfolding h by (simp add: display_prompt_tx ser_println_def ser_print_def)
qed

theorem ampl_out_of_range_rejected_witness:
  "parse (''ampl 2.5'' @ NUL # replicate 51 NUL)
       (RegisterCommands demo_platform demo_others (demo_console 60 [] [])) =
     Inr (''ampl'' @ NUL # ''2.5'' @ NUL # replicate 51 NUL,
          (RegisterCommands demo_platform demo_others (demo_console 60 [] []))
            \<lparr>io := demo_world\<lparr>tx := map (Pair Serial) (''Invalid amplitude value'' @ CRLF)
                                    @ map (Pair Cmd_ser) (CRLF @ cmd_prompt)\<rparr>\<rparr>)"
  using ampl_out_of_range_rejected
    [of demo_platform "RegisterCommands demo_platform demo_others (demo_console 60 [] [])"
        demo_others "demo_console 60 [] []" "replicate 51 NUL"]
  by (simp add: demo_platform_def RegisterCommands_frame demo_console_def demo_world_def)

text \<open>
  C7. With the commands of the sketch registered, and a conversion that reads
  \<^verbatim>\<open>1.5\<close> as the number 1.5, dispatching the line \<^verbatim>\<open>ampl 1.5\<close> calls the setter with
  1.5, so that the amplitude is 1.5, and then calls the commit operation, once: these
  are the only two calls the collaborator receives. Then the prompt is written.
\<close>

theorem ampl_in_range_applied:
  assumes "strtod pf ''1.5'' = Finite (3 / 2)"
    and "s = RegisterCommands pf oc s0"
  shows "parse (''ampl 1.5'' @ NUL # rest) s =
     Inr (''ampl'' @ NUL # ''1.5'' @ NUL # rest,
          s\<lparr>io := (io s)\<lparr>
                 rf_synth := (rf_synth (io s))\<lparr>
                    amplitude := Finite (3 / 2),
                    calls := calls (rf_synth (io s))
                               @ [Set_amplitude (Finite (3 / 2)), Apply_settings]\<rparr>,
                 tx := tx (io s) @ map (Pair Cmd_ser) (CRLF @ cmd_prompt)\<rparr>\<rparr>)"
proof -
  have h: "CmdAmpl pf 2 ((replicate 30 None)[0 := Some ''ampl'', 1 := Some ''1.5'']) (io s) =
      Inr ((io s)\<lparr>rf_synth :=
             apply_settings (set_amplitude (Finite (3 / 2)) (rf_synth (io s)))\<rparr>)"
    unfolding CmdAmpl_one_argument using assms(1) by simp
  have "parse (''ampl'' @ SPC # ''1.5'' @ NUL # rest) s =
     (case CmdAmpl pf 2 ((replicate 30 None)[0 := Some ''ampl'', 1 := Some ''1.5'']) (io s) of
        Inl x \<Rightarrow> Inl x
      | Inr w \<Rightarrow> Inr (''ampl'' @ NUL # ''1.5'' @ NUL # rest, s\<lparr>io := display_prompt w\<rparr>))"
    using token_ampl(3) unfolding assms(2)
    by (rule parse_ampl) (rule RegisterCommands_tbl, rule ampl_first_in_RegisterCommands)
  then show ?thesis
    unfolding h by (simp add: display_prompt_tx apply_settings_def set_amplitude_def)
qed

theorem ampl_in_range_applied_witness:
  "parse (''ampl 1.5'' @ NUL # replicate 51 NUL)
       (RegisterCommands demo_platform demo_others (demo_console 60 [] [])) =
     Inr (''ampl'' @ NUL # ''1.5'' @ NUL # replicate 51 NUL,
          (RegisterCommands demo_platform demo_others (demo_console 60 [] []))
            \<lparr>io := demo_world\<lparr>
                 rf_synth := (rf_synth demo_world)\<lparr>
                    amplitude := Finite (3 / 2),
                    calls := [Set_amplitude (Finite (3 / 2)), Apply_settings]\<rparr>,
                 tx := map (Pair Cmd_ser) (CRLF @ cmd_prompt)\<rparr>\<rparr>)"
  using ampl_in_range_applied
    [of demo_platform "RegisterCommands demo_platform demo_others (demo_console 60 [] [])"
        demo_others "demo_console 60 [] []" "replicate 51 NUL"]
  by (simp add: demo_platform_def RegisterCommands_frame demo_console_def demo_world_def)

text \<open>
  The copy loops. A source that has no zero byte among its first \<open>fox_len\<close> bytes
  keeps the loop running until the counter equals \<open>fox_len\<close>, where it stores.
\<close>

lemma FoxCopy_loop_overrun:
  assumes "fox_len w = int (length (fox_string w))" and "ii \<le> length (fox_string w)"
    and "length (fox_string w) \<le> length str" and "NUL \<notin> set str"
  shows "FoxCopy_loop str ii w = Inl (OutOfBounds (fox_len w))"
  using assms
proof (induction "length (fox_string w) - ii" arbitrary: ii w)
  case 0
  then show ?case by (subst FoxCopy_loop.simps) simp
next
  case (Suc d)
  then have lt: "ii < length (fox_string w)" and "ii < length str" by auto
  then have c: "cstr_at str ii \<noteq> NUL"
    using Suc.prems(4) by (metis cstr_at_def nth_mem)
  let ?w1 = "w\<lparr>fox_string := (fox_string w)[ii := cstr_at str ii]\<rparr>"
  have "FoxCopy_loop str (ii + 1) ?w1 = Inl (OutOfBounds (fox_len ?w1))"
    using Suc by (intro Suc.hyps(1)) auto
  then show ?case
    using lt c Suc.prems(1) by (subst FoxCopy_loop.simps) (simp add: Let_def)
qed

lemma CallCopy_loop_overrun:
  assumes "call_len w = int (length (callsign w))" and "ii \<le> length (callsign w)"
    and "length (callsign w) \<le> length str" and "NUL \<notin> set str"
  shows "CallCopy_loop str ii w = Inl (OutOfBounds (call_len w))"
  using assms
proof (induction "length (callsign w) - ii" arbitrary: ii w)
  case 0
  then show ?case by (subst CallCopy_loop.simps) simp
next
  case (Suc d)
  then have lt: "ii < length (callsign w)" and "ii < length str" by auto
  then have c: "cstr_at str ii \<noteq> NUL"
    using Suc.prems(4) by (metis cstr_at_def nth_mem)
  let ?w1 = "w\<lparr>callsign := (callsign w)[ii := cstr_at str ii]\<rparr>"
  have "CallCopy_loop str (ii + 1) ?w1 = Inl (OutOfBounds (call_len ?w1))"
    using Suc by (intro Suc.hyps(1)) auto
  then show ?case
    using lt c Suc.prems(1) by (subst CallCopy_loop.simps) (simp add: Let_def)
qed

text \<open>
  C10. The stores of the copy loop do not stay within the indices 0 to
  \<open>fox_len - 1\<close> when the source string is at least as long as the destination. With
  \<open>fox_len\<close> the length of \<^verbatim>\<open>fox_string\<close> (and \<open>call_len\<close> that of \<^verbatim>\<open>callsign\<close>), as
  the header declares them, the loop bound \<^verbatim>\<open>ii <= fox_len\<close> lets the loop store at
  index \<open>fox_len\<close>, one past the last index of the array; the same holds for
  \<^verbatim>\<open>CallCopy\<close>.
\<close>

theorem copy_loop_stores_past_the_end:
  assumes "NUL \<notin> set str"
    and "fox_len w = int (length (fox_string w))" and "length (fox_string w) \<le> length str"
    and "call_len w = int (length (callsign w))" and "length (callsign w) \<le> length str"
  shows "FoxCopy str w = Inl (OutOfBounds (fox_len w))
       \<and> CallCopy str w = Inl (OutOfBounds (call_len w))"
  using assms
  by (simp add: FoxCopy_def CallCopy_def bind_err_def FoxCopy_loop_overrun
      CallCopy_loop_overrun)

theorem copy_loop_stores_past_the_end_witness:
  "FoxCopy ''ABCDEFGH'' demo_world = Inl (OutOfBounds 8)
   \<and> CallCopy ''ABCDEFGH'' demo_world = Inl (OutOfBounds 8)"
  using copy_loop_stores_past_the_end [of "''ABCDEFGH''" demo_world]
  by (simp add: demo_world_def)

text \<open>
  A source shorter than the destination is copied with its terminator, every store is
  within the array, and the last byte of the array is zero.
\<close>

lemma FoxCopy_loop_fits:
  assumes "fox_len w = int (length (fox_string w))" and "ii \<le> length str"
    and "length str < length (fox_string w)" and "NUL \<notin> set str"
  shows "FoxCopy_loop str ii w =
      Inr (w\<lparr>fox_string := take ii (fox_string w) @ drop ii str
                               @ NUL # drop (length str + 1) (fox_string w)\<rparr>)"
  using assms
proof (induction "length str - ii" arbitrary: ii w)
  case 0
  then have ii: "ii = length str" by simp
  then have c: "cstr_at str ii = NUL" by (simp add: cstr_at_def)
  show ?case
    using 0 ii c
    by (subst FoxCopy_loop.simps) (simp add: Let_def upd_conv_take_nth_drop)
next
  case (Suc d)
  then have lt: "ii < length str" by simp
  then have c: "cstr_at str ii = str ! ii" "cstr_at str ii \<noteq> NUL"
    using Suc.prems(4) by (metis cstr_at_def nth_mem)+
  let ?w1 = "w\<lparr>fox_string := (fox_string w)[ii := str ! ii]\<rparr>"
  have ih: "FoxCopy_loop str (ii + 1) ?w1 =
      Inr (?w1\<lparr>fox_string := take (ii + 1) (fox_string ?w1) @ drop (ii + 1) str
                               @ NUL # drop (length str + 1) (fox_string ?w1)\<rparr>)"
    using Suc lt by (intro Suc.hyps(1)) auto
  have t: "take (Suc ii) ((fox_string w)[ii := str ! ii]) = take ii (fox_string w) @ [str ! ii]"
    using lt Suc.prems by (simp add: take_Suc_conv_app_nth)
  have d: "drop ii str = str ! ii # drop (Suc ii) str"
    using lt by (simp add: Cons_nth_drop_Suc)
  show ?case
    using lt c Suc.prems ih t d by (subst FoxCopy_loop.simps) (simp add: Let_def)
qed

lemma FoxCopy_fits:
  assumes "fox_len w = int (length (fox_string w))"
    and "length str < length (fox_string w)" and "NUL \<notin> set str"
  shows "FoxCopy str w =
      Inr (w\<lparr>fox_string := (str @ NUL # drop (length str + 1) (fox_string w))
                               [length (fox_string w) - 1 := NUL]\<rparr>)"
proof -
  have "FoxCopy_loop str 0 w =
      Inr (w\<lparr>fox_string := take 0 (fox_string w) @ drop 0 str
                               @ NUL # drop (length str + 1) (fox_string w)\<rparr>)"
    using assms by (intro FoxCopy_loop_fits) auto
  moreover have "fox_string w \<noteq> []"
    using assms(2) by auto
  ultimately show ?thesis
    using assms by (simp add: FoxCopy_def bind_err_def Let_def nat_diff_distrib')
qed

lemma CallCopy_loop_fits:
  assumes "call_len w = int (length (callsign w))" and "ii \<le> length str"
    and "length str < length (callsign w)" and "NUL \<notin> set str"
  shows "CallCopy_loop str ii w =
      Inr (w\<lparr>callsign := take ii (callsign w) @ drop ii str
                               @ NUL # drop (length str + 1) (callsign w)\<rparr>)"
  using assms
proof (induction "length str - ii" arbitrary: ii w)
  case 0
  then have ii: "ii = length str" by simp
  then have c: "cstr_at str ii = NUL" by (simp add: cstr_at_def)
  show ?case
    using 0 ii c
    by (subst CallCopy_loop.simps) (simp add: Let_def upd_conv_take_nth_drop)
next
  case (Suc d)
  then have lt: "ii < length str" by simp
  then have c: "cstr_at str ii = str ! ii" "cstr_at str ii \<noteq> NUL"
    using Suc.prems(4) by (metis cstr_at_def nth_mem)+
  let ?w1 = "w\<lparr>callsign := (callsign w)[ii := str ! ii]\<rparr>"
  have ih: "CallCopy_loop str (ii + 1) ?w1 =
      Inr (?w1\<lparr>callsign := take (ii + 1) (callsign ?w1) @ drop (ii + 1) str
                               @ NUL # drop (length str + 1) (callsign ?w1)\<rparr>)"
    using Suc lt by (intro Suc.hyps(1)) auto
  have t: "take (Suc ii) ((callsign w)[ii := str ! ii]) = take ii (callsign w) @ [str ! ii]"
    using lt Suc.prems by (simp add: take_Suc_conv_app_nth)
  have d: "drop ii str = str ! ii # drop (Suc ii) str"
    using lt by (simp add: Cons_nth_drop_Suc)
  show ?case
    using lt c Suc.prems ih t d by (subst CallCopy_loop.simps) (simp add: Let_def)
qed

lemma CallCopy_fits:
  assumes "call_len w = int (length (callsign w))"
    and "length str < length (callsign w)" and "NUL \<notin> set str"
  shows "CallCopy str w =
      Inr (w\<lparr>callsign := (str @ NUL # drop (length str + 1) (callsign w))
                               [length (callsign w) - 1 := NUL]\<rparr>)"
proof -
  have "CallCopy_loop str 0 w =
      Inr (w\<lparr>callsign := take 0 (callsign w) @ drop 0 str
                               @ NUL # drop (length str + 1) (callsign w)\<rparr>)"
    using assms by (intro CallCopy_loop_fits) auto
  moreover have "callsign w \<noteq> []"
    using assms(2) by auto
  ultimately show ?thesis
    using assms by (simp add: CallCopy_def bind_err_def Let_def nat_diff_distrib')
qed

lemma copy_of_short_string:
  "map_sum id fox_string (FoxCopy ''ABCDEFG'' demo_world) = Inr (''ABCDEFG'' @ [NUL])"
  "map_sum id callsign (CallCopy ''SA5BYZ'' demo_world) = Inr (''SA5BYZ'' @ [NUL, NUL])"
  by code_simp+

end
